theory Spec2Isabelle
  imports Main "HOL-Library.AList"
begin

section \<open>The proctoring hook: data\<close>

text \<open>
  The hook \<open>useProctoring\<close> is a React function component hook. Three kinds of
  storage occur in it and are kept apart in the model:
  \<^item> values of \<open>useState\<close>: every render binds them as constants, and a function
    defined during a render reads the constants of that render for as long as the
    function lives. A setter writes the state the next render will see. The record
    \<open>Render\<close> holds the hook's props and state as one render sees them;
  \<^item> values of \<open>useRef\<close>: one mutable cell for all renders (\<open>cameraRef\<close>,
    \<open>snapshotIntervalRef\<close>);
  \<^item> the timers of the platform, each holding the callback it was given, that is a
    function of the render that created it.
  A function of the hook therefore takes the render \<open>env\<close> whose constants it
  reads, and the world \<open>w\<close> whose current state its setters write.
\<close>

record ViolationModalState =
  visible :: bool
  violationType :: string
  violationTitle :: string
  violationMessage :: string
  totalViolations :: int
  isDisqualified :: bool

record ViolationDetails =
  title :: string
  message :: string

record Violation =
  vtype :: string

record Analysis =
  success :: bool
  error :: string
  violations :: "Violation list option"
  faces_detected :: int

record SnapshotResponse =
  snapshot_uploaded :: bool
  analysis :: Analysis
  violation_count :: int
  auto_disqualified :: bool
  storage_type :: string

record Metadata =
  user_agent :: string
  screen_resolution :: string
  device_pixel_ratio :: int
  timezone :: string

record SnapshotData =
  image_data :: string
  timestamp :: string
  metadata :: Metadata

text \<open>What the platform reports about the device; read by \<open>prepareSnapshotData\<close>.\<close>

record Platform =
  platformOS :: string
  userAgentText :: string
  resolutionText :: string
  timeZoneText :: string

datatype js_error = TypeError | AuthError | NetworkError

record Render =
  isProctoringEnabled :: bool
  snapshotCount :: nat
  lastSnapshotTime :: "string option"
  isTakingSnapshot :: bool
  violationCount :: int
  appState :: string
  cameraReady :: bool
  hasPermission :: bool
  violationModal :: ViolationModalState

datatype effect =
    PhotoTaken
  | SnapshotPosted int SnapshotData
  | ModalShown ViolationModalState
  | PermissionAlert

text \<open>
  The world: the state the next render will see (\<open>cur\<close>), the two refs, the pending
  timers with the render each callback belongs to, the cycles waiting for the camera
  or for the server, and the calls made so far. \<open>attemptId\<close> is a route parameter
  and never changes.
\<close>

record World =
  attemptId :: int
  platform :: Platform
  cur :: Render
  cameraRef :: bool
  snapshotIntervalRef :: "nat option"
  timeouts :: "Render list"
  intervals :: "(nat \<times> Render) list"
  nextTimerId :: nat
  capturing :: nat
  uploading :: nat
  trace :: "effect list"

datatype settled = Fulfilled "SnapshotResponse option" | Rejected js_error

section \<open>The proctoring hook: functions\<close>

definition initialViolationModal :: ViolationModalState where
  "initialViolationModal =
     \<lparr>visible = False, violationType = [], violationTitle = [], violationMessage = [],
      totalViolations = 0, isDisqualified = False\<rparr>"

definition initialRender :: Render where
  "initialRender =
     \<lparr>isProctoringEnabled = False, snapshotCount = 0, lastSnapshotTime = None,
      isTakingSnapshot = False, violationCount = 0, appState = ''active'',
      cameraReady = False, hasPermission = False,
      violationModal = initialViolationModal\<rparr>"

definition initialWorld :: "int \<Rightarrow> Platform \<Rightarrow> World" where
  "initialWorld aid p =
     \<lparr>attemptId = aid, platform = p, cur = initialRender, cameraRef = False,
      snapshotIntervalRef = None, timeouts = [], intervals = [], nextTimerId = 1,
      capturing = 0, uploading = 0, trace = []\<rparr>"

text \<open>
  The message texts hold a line feed, a pushpin sign and bullet signs; they are written
  as the bytes of their UTF-8 encoding.
\<close>

definition nl :: string where
  "nl = [CHR 0x0A]"

definition pin :: string where
  "pin = [CHR 0xF0, CHR 0x9F, CHR 0x93, CHR 0x8C]"

definition bullet :: string where
  "bullet = [CHR 0xE2, CHR 0x80, CHR 0xA2]"

definition actionRequired :: "string \<Rightarrow> string \<Rightarrow> string \<Rightarrow> string \<Rightarrow> string" where
  "actionRequired headline a b c =
     headline @ nl @ nl @ pin @ '' Action Required:'' @ nl
       @ bullet @ '' '' @ a @ nl @ bullet @ '' '' @ b @ nl @ bullet @ '' '' @ c"

text \<open>
  \<open>getViolationDetails\<close>: a switch over five type strings, with the default case
  commented out. For any other string the function falls off its end and returns
  \<open>undefined\<close>: \<open>None\<close>.
\<close>

definition getViolationDetails :: "string \<Rightarrow> ViolationDetails option" where
  "getViolationDetails t =
     (if t = ''no_face'' then
        Some \<lparr>title = ''Face Not Detected'',
              message = actionRequired ''Your face is not visible in the camera.''
                ''Position yourself so your face is clearly visible''
                ''Ensure proper lighting'' ''Look at the screen''\<rparr>
      else if t = ''multiple_faces'' then
        Some \<lparr>title = ''Multiple Faces Detected'',
              message = actionRequired ''More than one person detected in the frame.''
                ''Ensure you are alone during the exam''
                ''Remove others from camera view'' ''Maintain exam integrity''\<rparr>
      else if t = ''looking_away'' then
        Some \<lparr>title = ''Looking Away Detected'',
              message = actionRequired ''You appear to be looking away from the screen.''
                ''Keep your eyes on the exam''
                ''Focus on the questions'' ''Avoid looking at other materials''\<rparr>
      else if t = ''suspicious_gaze'' then
        Some \<lparr>title = ''Suspicious Eye Movement'',
              message = actionRequired ''Unusual eye movement pattern detected.''
                ''Focus on the exam screen''
                ''Avoid looking around'' ''Keep your gaze steady''\<rparr>
      else if t = ''head_pose_violation'' then
        Some \<lparr>title = ''Unusual Head Position'',
              message = actionRequired ''Your head position seems unusual.''
                ''Face the screen directly''
                ''Sit upright'' ''Maintain proper posture''\<rparr>
      else None)"

definition handledTypes :: "string list" where
  "handledTypes =
     [''no_face'', ''multiple_faces'', ''looking_away'', ''suspicious_gaze'',
      ''head_pose_violation'']"

text \<open>The setters of \<open>useState\<close>: they write the state of the next render.\<close>

definition setSnapshotCount :: "(nat \<Rightarrow> nat) \<Rightarrow> World \<Rightarrow> World" where
  "setSnapshotCount f w = w\<lparr>cur := (cur w)\<lparr>snapshotCount := f (snapshotCount (cur w))\<rparr>\<rparr>"

definition setLastSnapshotTime :: "string \<Rightarrow> World \<Rightarrow> World" where
  "setLastSnapshotTime t w = w\<lparr>cur := (cur w)\<lparr>lastSnapshotTime := Some t\<rparr>\<rparr>"

definition setIsTakingSnapshot :: "bool \<Rightarrow> World \<Rightarrow> World" where
  "setIsTakingSnapshot b w = w\<lparr>cur := (cur w)\<lparr>isTakingSnapshot := b\<rparr>\<rparr>"

definition setViolationCount :: "int \<Rightarrow> World \<Rightarrow> World" where
  "setViolationCount n w = w\<lparr>cur := (cur w)\<lparr>violationCount := n\<rparr>\<rparr>"

definition setAppState :: "string \<Rightarrow> World \<Rightarrow> World" where
  "setAppState a w = w\<lparr>cur := (cur w)\<lparr>appState := a\<rparr>\<rparr>"

definition setCameraReady :: "bool \<Rightarrow> World \<Rightarrow> World" where
  "setCameraReady b w = w\<lparr>cur := (cur w)\<lparr>cameraReady := b\<rparr>\<rparr>"

definition setHasPermission :: "bool \<Rightarrow> World \<Rightarrow> World" where
  "setHasPermission b w = w\<lparr>cur := (cur w)\<lparr>hasPermission := b\<rparr>\<rparr>"

definition setViolationModal :: "(ViolationModalState \<Rightarrow> ViolationModalState) \<Rightarrow> World \<Rightarrow> World" where
  "setViolationModal f w = w\<lparr>cur := (cur w)\<lparr>violationModal := f (violationModal (cur w))\<rparr>\<rparr>"

text \<open>
  \<open>showViolationModal\<close> reads \<open>details.title\<close> and \<open>details.message\<close> while it builds
  the argument of the setter. When \<open>details\<close> is \<open>undefined\<close> that read throws a
  TypeError before the setter is called: the world is returned as it was, with the
  error. Otherwise the setter is called once, which the trace records.
\<close>

definition showViolationModal :: "string \<Rightarrow> int \<Rightarrow> bool \<Rightarrow> World \<Rightarrow> js_error option \<times> World" where
  "showViolationModal t cnt disq w =
     (case getViolationDetails t of
        None \<Rightarrow> (Some TypeError, w)
      | Some details \<Rightarrow>
          (let m = \<lparr>visible = True, violationType = t, violationTitle = title details,
                    violationMessage = message details, totalViolations = cnt,
                    isDisqualified = disq\<rparr>
           in (None, (setViolationModal (\<lambda>prev. m) w)\<lparr>trace := trace w @ [ModalShown m]\<rparr>)))"

definition closeViolationModal :: "World \<Rightarrow> World" where
  "closeViolationModal w = setViolationModal (\<lambda>prev. prev\<lparr>visible := False\<rparr>) w"

text \<open>
  The component \<open>ViolationModal\<close> offers two ways to dismiss the notice: the
  platform's request to close (the back button), wired to
  \<open>isDisqualified ? undefined : onClose\<close>, and the action button, wired to
  \<open>onClose\<close> whatever the state. The screen passes \<open>closeViolationModal\<close> as
  \<open>onClose\<close>.
\<close>

definition onRequestClose :: "World \<Rightarrow> World" where
  "onRequestClose w =
     (if isDisqualified (violationModal (cur w)) then w else closeViolationModal w)"

definition onPressActionButton :: "World \<Rightarrow> World" where
  "onPressActionButton w = closeViolationModal w"

text \<open>
  \<open>captureImageSilently\<close> returns null at once, without touching the camera, when
  the app is not active, the camera ref is empty or the permission is missing. The app
  state and the permission are state constants of the render; the ref is read live.
\<close>

definition canCapture :: "Render \<Rightarrow> World \<Rightarrow> bool" where
  "canCapture env w = (appState env = ''active'' \<and> cameraRef w \<and> hasPermission env)"

definition prepareSnapshotData :: "Platform \<Rightarrow> string \<Rightarrow> string \<Rightarrow> SnapshotData" where
  "prepareSnapshotData p isoNow base64Image =
     \<lparr>image_data = base64Image, timestamp = isoNow,
      metadata = \<lparr>user_agent = userAgentText p, screen_resolution = resolutionText p,
                  device_pixel_ratio = (if platformOS p = ''ios'' then 2 else 3),
                  timezone = timeZoneText p\<rparr>\<rparr>"

text \<open>
  \<open>takeAndUploadSnapshot\<close> is an async function with two suspension points, the
  capture and the upload; the model has one function for each of its three synchronous
  stretches. Each returns the value the promise settles with once it settles
  (\<open>None\<close> while the cycle is still waiting) and the world.

  First stretch: the two guards, the busy flag, and the start of the capture. A null
  image from the early returns of \<open>captureImageSilently\<close> ends the cycle through
  \<open>return\<close> and \<open>finally\<close>.
\<close>

definition takeAndUploadSnapshot :: "Render \<Rightarrow> World \<Rightarrow> settled option \<times> World" where
  "takeAndUploadSnapshot env w =
     (if isTakingSnapshot env then (Some (Fulfilled None), w)
      else if \<not> cameraReady env \<or> \<not> hasPermission env then (Some (Fulfilled None), w)
      else
        (let w1 = setIsTakingSnapshot True w
         in if canCapture env w1
            then (None, w1\<lparr>capturing := Suc (capturing w1), trace := trace w1 @ [PhotoTaken]\<rparr>)
            else (Some (Fulfilled None), setIsTakingSnapshot False w1)))"

text \<open>
  Second stretch: the capture has come back, with the base64 text or with null (any
  error of the camera or of the file system is caught inside
  \<open>captureImageSilently\<close>). \<open>!base64Image\<close> holds for null and for the empty text.
\<close>

definition captureSettled :: "string option \<Rightarrow> string \<Rightarrow> World \<Rightarrow> settled option \<times> World" where
  "captureSettled base64Image isoNow w =
     (case base64Image of
        None \<Rightarrow> (Some (Fulfilled None), setIsTakingSnapshot False w)
      | Some img \<Rightarrow>
          (if img = [] then (Some (Fulfilled None), setIsTakingSnapshot False w)
           else (None, w\<lparr>uploading := Suc (uploading w),
                          trace := trace w @ [SnapshotPosted (attemptId w)
                                     (prepareSnapshotData (platform w) isoNow img)]\<rparr>)))"

text \<open>
  Third stretch, the body of the \<open>try\<close> after the upload has answered: the counters,
  then the two notices. An exception of the first notice skips the second one; the
  state written before the exception stays written.
\<close>

definition processResponse :: "SnapshotResponse \<Rightarrow> string \<Rightarrow> World \<Rightarrow> js_error option \<times> World" where
  "processResponse response currentTime w =
     (let w1 = setSnapshotCount (\<lambda>prev. prev + 1) w;
          w2 = setLastSnapshotTime currentTime w1;
          w3 = setViolationCount (violation_count response) w2;
          currentSnapshotViolations =
            (case violations (analysis response) of None \<Rightarrow> [] | Some vs \<Rightarrow> vs);
          hasViolationInCurrentSnapshot = (0 < length currentSnapshotViolations);
          (thrown, w4) =
            (if hasViolationInCurrentSnapshot
             then showViolationModal (vtype (hd currentSnapshotViolations))
                    (violation_count response) False w3
             else (None, w3))
      in case thrown of
           Some err \<Rightarrow> (Some err, w4)
         | None \<Rightarrow>
             (if auto_disqualified response
              then showViolationModal ''disqualified'' (violation_count response) True w4
              else (None, w4)))"

text \<open>
  The upload has answered or thrown. \<open>catch\<close> logs the error and falls through, so
  the promise is fulfilled with \<open>undefined\<close>; \<open>finally\<close> clears the busy flag.
\<close>

definition uploadSettled :: "js_error + SnapshotResponse \<Rightarrow> string \<Rightarrow> World \<Rightarrow> settled \<times> World" where
  "uploadSettled res currentTime w =
     (case res of
        Inl err \<Rightarrow> (Fulfilled None, setIsTakingSnapshot False w)
      | Inr response \<Rightarrow>
          (case processResponse response currentTime w of
             (Some err, w') \<Rightarrow> (Fulfilled None, setIsTakingSnapshot False w')
           | (None, w') \<Rightarrow> (Fulfilled (Some response), setIsTakingSnapshot False w')))"

subsection \<open>Timers\<close>

definition refSet :: "nat option \<Rightarrow> bool" where
  "refSet r = (case r of None \<Rightarrow> False | Some i \<Rightarrow> i \<noteq> 0)"

definition clearInterval :: "nat option \<Rightarrow> World \<Rightarrow> World" where
  "clearInterval r w =
     (case r of None \<Rightarrow> w
      | Some i \<Rightarrow> w\<lparr>intervals := filter (\<lambda>(j, env). j \<noteq> i) (intervals w)\<rparr>)"

text \<open>
  \<open>startProctoring\<close> hands both timers a callback that calls the
  \<open>takeAndUploadSnapshot\<close> of the same render as itself: the timers store \<open>env\<close>.
  The timeout is never cleared by the hook.
\<close>

definition startProctoring :: "Render \<Rightarrow> World \<Rightarrow> World" where
  "startProctoring env w =
     (if \<not> isProctoringEnabled env then w
      else if \<not> cameraReady env \<or> \<not> hasPermission env then w
      else
        (let w1 = (if refSet (snapshotIntervalRef w)
                   then clearInterval (snapshotIntervalRef w) w else w);
             w2 = w1\<lparr>timeouts := timeouts w1 @ [env], nextTimerId := Suc (nextTimerId w1)\<rparr>;
             i = nextTimerId w2
         in w2\<lparr>intervals := intervals w2 @ [(i, env)], snapshotIntervalRef := Some i,
                nextTimerId := Suc i\<rparr>))"

definition stopProctoring :: "World \<Rightarrow> World" where
  "stopProctoring w =
     (if refSet (snapshotIntervalRef w)
      then (clearInterval (snapshotIntervalRef w) w)\<lparr>snapshotIntervalRef := None\<rparr>
      else w)"

text \<open>
  The effect on \<open>[attemptId, isProctoringEnabled, cameraReady, hasPermission]\<close>: React
  runs the cleanup of its previous run, then the effect of the render that has just
  been committed.
\<close>

definition proctoringEffect :: "World \<Rightarrow> World" where
  "proctoringEffect w =
     (let w1 = stopProctoring w; env = cur w1
      in if isProctoringEnabled env \<and> attemptId w1 \<noteq> 0 \<and> cameraReady env \<and> hasPermission env
         then startProctoring env w1 else w1)"

text \<open>The effect on \<open>[appState]\<close>: pause in the background, resume in the foreground.\<close>

definition appStateEffect :: "World \<Rightarrow> World" where
  "appStateEffect w =
     (let env = cur w
      in if appState env \<noteq> ''active'' \<and> refSet (snapshotIntervalRef w) then stopProctoring w
         else if appState env = ''active'' \<and> isProctoringEnabled env \<and> cameraReady env
                 \<and> hasPermission env \<and> \<not> refSet (snapshotIntervalRef w)
         then startProctoring env w
         else w)"

subsection \<open>Events\<close>

text \<open>
  What can happen to the hook between two renders. An event that cannot happen in the
  world it meets (a timer firing that is not pending, an answer nobody waits for) has
  no successor.
\<close>

datatype event =
    ProctoringEnabled
  | PermissionResult bool
  | CameraRefSet
  | AppStateChanged string
  | TimeoutFires
  | IntervalFires
  | CaptureDone "string option" string
  | UploadDone "js_error + SnapshotResponse" string
  | ActionButtonPressed
  | CloseRequested
  | Unmounted

fun step :: "event \<Rightarrow> World \<Rightarrow> World option" where
  "step ProctoringEnabled w =
     (if isProctoringEnabled (cur w) then Some w
      else Some (proctoringEffect (w\<lparr>cur := (cur w)\<lparr>isProctoringEnabled := True\<rparr>\<rparr>)))"
| "step (PermissionResult granted) w =
     (if \<not> isProctoringEnabled (cur w) then None
      else
        (let w1 = (if granted then setHasPermission True w
                   else (setHasPermission False w)\<lparr>trace := trace w @ [PermissionAlert]\<rparr>)
         in if hasPermission (cur w) = granted then Some w1 else Some (proctoringEffect w1)))"
| "step CameraRefSet w =
     (let w1 = setCameraReady True (w\<lparr>cameraRef := True\<rparr>)
      in if cameraReady (cur w) then Some w1 else Some (proctoringEffect w1))"
| "step (AppStateChanged a) w =
     (if appState (cur w) = a then Some w else Some (appStateEffect (setAppState a w)))"
| "step TimeoutFires w =
     (case timeouts w of
        [] \<Rightarrow> None
      | env # rest \<Rightarrow> Some (snd (takeAndUploadSnapshot env (w\<lparr>timeouts := rest\<rparr>))))"
| "step IntervalFires w =
     (case intervals w of
        [] \<Rightarrow> None
      | (i, env) # rest \<Rightarrow> Some (snd (takeAndUploadSnapshot env w)))"
| "step (CaptureDone base64Image isoNow) w =
     (if capturing w = 0 then None
      else Some (snd (captureSettled base64Image isoNow (w\<lparr>capturing := capturing w - 1\<rparr>))))"
| "step (UploadDone res currentTime) w =
     (if uploading w = 0 then None
      else Some (snd (uploadSettled res currentTime (w\<lparr>uploading := uploading w - 1\<rparr>))))"
| "step ActionButtonPressed w =
     (if visible (violationModal (cur w)) then Some (onPressActionButton w) else None)"
| "step CloseRequested w =
     (if visible (violationModal (cur w)) then Some (onRequestClose w) else None)"
| "step Unmounted w = Some (stopProctoring w)"

fun run :: "event list \<Rightarrow> World \<Rightarrow> World option" where
  "run [] w = Some w"
| "run (e # es) w = (case step e w of None \<Rightarrow> None | Some w' \<Rightarrow> run es w')"

text \<open>The cycles that have started and not yet ended.\<close>

definition inFlight :: "World \<Rightarrow> nat" where
  "inFlight w = capturing w + uploading w"

text \<open>
  The count an observer of the event list computes from the server's responses alone:
  the \<open>violation_count\<close> of the last response, or the starting value when there was
  none.
\<close>

fun serverCount :: "event list \<Rightarrow> int \<Rightarrow> int" where
  "serverCount [] c = c"
| "serverCount (UploadDone (Inr response) t # es) c = serverCount es (violation_count response)"
| "serverCount (e # es) c = serverCount es c"

definition modalsShown :: "World \<Rightarrow> ViolationModalState list" where
  "modalsShown w = concat (map (\<lambda>e. case e of ModalShown m \<Rightarrow> [m] | _ \<Rightarrow> []) (trace w))"

section \<open>The exam screen: data\<close>

text \<open>
  \<open>ExamScreen\<close> is a React function component; its state, refs and timers are kept
  apart as in the hook. Times are milliseconds of \<open>Date.now()\<close>; \<open>timeSpent\<close> and the
  countdown are seconds. \<open>userAnswers\<close> is an object keyed by question id: a list of
  pairs with distinct keys, read with \<open>map_of\<close> and written with \<open>AList.update\<close>.
\<close>

record UserAnswer =
  questionId :: nat
  answer :: string
  isFlagged :: bool
  timeSpent :: int
  startTime :: int

text \<open>Of a question, the handlers read the id and the subject only.\<close>

record Question =
  qid :: nat
  subject :: string

record ExamAttempt =
  time_remaining :: int
  proctoring_enabled :: bool

text \<open>
  An entry of the submit payload; \<open>answer_value\<close> is its field \<open>answer\<close>. The
  payload's keys are the decimal texts of the question ids, written here as the ids.
\<close>

record AnswerWithTime =
  question_id :: nat
  answer_value :: string
  is_flagged :: bool
  time_spent :: int

record SubmitExamPayload =
  attempt_id :: int
  answers :: "(nat \<times> AnswerWithTime) list"

record ExamRender =
  attempt :: "ExamAttempt option"
  questions :: "Question list"
  timeRemaining :: int
  currentQuestionIndex :: int
  userAnswers :: "(nat \<times> UserAnswer) list"
  showSubmitModal :: bool
  submitting :: bool
  autoSaving :: bool
  lastSaved :: "string option"
  questionStartTime :: int
  selectedSubject :: "string option"

datatype call =
    AnswerSaved int nat string bool
  | ExamSubmitted SubmitExamPayload
  | AlertShown string

text \<open>
  The world of the screen: the state the next render will see (\<open>screen\<close>), the ref of
  the debounce timer, the pending debounce timers (id, due time, and the arguments the
  callback closes over), the countdown interval with the render its callback belongs
  to, the cleanup of the time-tracking effect with the question and start time it
  closes over, the network calls that have not answered yet, and the calls made.
\<close>

record ExamWorld =
  routeAttemptId :: int
  clock :: int
  screen :: ExamRender
  autoSaveTimeoutRef :: "nat option"
  saveTimers :: "(nat \<times> int \<times> nat \<times> string \<times> bool) list"
  timerIds :: nat
  countdown :: "ExamRender option"
  tracking :: "(nat \<times> int) option"
  savesInFlight :: nat
  submitsInFlight :: nat
  calls :: "call list"

section \<open>The exam screen: functions\<close>

definition initialExamRender :: "int \<Rightarrow> ExamRender" where
  "initialExamRender now =
     \<lparr>attempt = None, questions = [], timeRemaining = 0, currentQuestionIndex = 0,
      userAnswers = [], showSubmitModal = False, submitting = False, autoSaving = False,
      lastSaved = None, questionStartTime = now, selectedSubject = None\<rparr>"

definition initialExamWorld :: "int \<Rightarrow> int \<Rightarrow> ExamWorld" where
  "initialExamWorld aid now =
     \<lparr>routeAttemptId = aid, clock = now, screen = initialExamRender now,
      autoSaveTimeoutRef = None, saveTimers = [], timerIds = 1, countdown = None,
      tracking = None, savesInFlight = 0, submitsInFlight = 0, calls = []\<rparr>"

definition setUserAnswers :: "((nat \<times> UserAnswer) list \<Rightarrow> (nat \<times> UserAnswer) list) \<Rightarrow> ExamWorld \<Rightarrow> ExamWorld" where
  "setUserAnswers f w = w\<lparr>screen := (screen w)\<lparr>userAnswers := f (userAnswers (screen w))\<rparr>\<rparr>"

definition setQuestionStartTime :: "int \<Rightarrow> ExamWorld \<Rightarrow> ExamWorld" where
  "setQuestionStartTime t w = w\<lparr>screen := (screen w)\<lparr>questionStartTime := t\<rparr>\<rparr>"

definition setCurrentQuestionIndex :: "int \<Rightarrow> ExamWorld \<Rightarrow> ExamWorld" where
  "setCurrentQuestionIndex i w = w\<lparr>screen := (screen w)\<lparr>currentQuestionIndex := i\<rparr>\<rparr>"

definition setSelectedSubject :: "string \<Rightarrow> ExamWorld \<Rightarrow> ExamWorld" where
  "setSelectedSubject s w = w\<lparr>screen := (screen w)\<lparr>selectedSubject := Some s\<rparr>\<rparr>"

definition setTimeRemaining :: "(int \<Rightarrow> int) \<Rightarrow> ExamWorld \<Rightarrow> ExamWorld" where
  "setTimeRemaining f w = w\<lparr>screen := (screen w)\<lparr>timeRemaining := f (timeRemaining (screen w))\<rparr>\<rparr>"

definition setSubmitting :: "bool \<Rightarrow> ExamWorld \<Rightarrow> ExamWorld" where
  "setSubmitting b w = w\<lparr>screen := (screen w)\<lparr>submitting := b\<rparr>\<rparr>"

definition setShowSubmitModal :: "bool \<Rightarrow> ExamWorld \<Rightarrow> ExamWorld" where
  "setShowSubmitModal b w = w\<lparr>screen := (screen w)\<lparr>showSubmitModal := b\<rparr>\<rparr>"

definition setAutoSaving :: "bool \<Rightarrow> ExamWorld \<Rightarrow> ExamWorld" where
  "setAutoSaving b w = w\<lparr>screen := (screen w)\<lparr>autoSaving := b\<rparr>\<rparr>"

definition setLastSaved :: "string \<Rightarrow> ExamWorld \<Rightarrow> ExamWorld" where
  "setLastSaved t w = w\<lparr>screen := (screen w)\<lparr>lastSaved := Some t\<rparr>\<rparr>"

definition alert :: "string \<Rightarrow> ExamWorld \<Rightarrow> ExamWorld" where
  "alert t w = w\<lparr>calls := calls w @ [AlertShown t]\<rparr>"

text \<open>\<open>questions[i]\<close>: \<open>undefined\<close> outside the array.\<close>

definition questionAt :: "Question list \<Rightarrow> int \<Rightarrow> Question option" where
  "questionAt qs i = (if 0 \<le> i \<and> nat i < length qs then Some (qs ! nat i) else None)"

text \<open>\<open>Math.floor((Date.now() - questionStartTime) / 1000)\<close>; \<open>div\<close> on \<open>int\<close> rounds down.\<close>

definition elapsedSeconds :: "int \<Rightarrow> int \<Rightarrow> int" where
  "elapsedSeconds now start = (now - start) div 1000"

definition updateQuestionTime :: "nat \<Rightarrow> int \<Rightarrow> ExamWorld \<Rightarrow> ExamWorld" where
  "updateQuestionTime q additionalTime w =
     setUserAnswers
       (\<lambda>prev. case map_of prev q of
                 Some existing \<Rightarrow>
                   AList.update q (existing\<lparr>timeSpent := timeSpent existing + additionalTime\<rparr>) prev
               | None \<Rightarrow> prev) w"

definition navigateToQuestion :: "ExamRender \<Rightarrow> int \<Rightarrow> int \<Rightarrow> ExamWorld \<Rightarrow> ExamWorld" where
  "navigateToQuestion env index now w =
     (let w1 = (case questionAt (questions env) (currentQuestionIndex env) of
                  Some currentQuestion \<Rightarrow>
                    updateQuestionTime (qid currentQuestion)
                      (elapsedSeconds now (questionStartTime env)) w
                | None \<Rightarrow> w);
          w2 = (case questionAt (questions env) index of
                  Some targetQuestion \<Rightarrow>
                    (if Some (subject targetQuestion) \<noteq> selectedSubject env
                     then setSelectedSubject (subject targetQuestion) w1 else w1)
                | None \<Rightarrow> w1)
      in setQuestionStartTime now (setCurrentQuestionIndex index w2))"

text \<open>
  The effect on \<open>[currentQuestionIndex, questions]\<close>: when either has changed, React
  runs the cleanup the previous run returned, which adds the time since the start time
  of the render it closes over, then the effect of the committed render, which restarts
  the start time and returns the next cleanup.
\<close>

definition trackingEffect :: "int \<Rightarrow> ExamWorld \<Rightarrow> ExamWorld" where
  "trackingEffect now w =
     (let env = screen w;
          w1 = (case tracking w of
                  Some (q, start) \<Rightarrow> updateQuestionTime q (elapsedSeconds now start) w
                | None \<Rightarrow> w)
      in case questionAt (questions env) (currentQuestionIndex env) of
           None \<Rightarrow> w1\<lparr>tracking := None\<rparr>
         | Some currentQuestion \<Rightarrow>
             (setQuestionStartTime now w1)
               \<lparr>tracking := Some (qid currentQuestion, questionStartTime env)\<rparr>)"

definition clearTimeout :: "nat option \<Rightarrow> ExamWorld \<Rightarrow> ExamWorld" where
  "clearTimeout r w =
     (case r of None \<Rightarrow> w
      | Some i \<Rightarrow> w\<lparr>saveTimers := filter (\<lambda>(j, d, c). j \<noteq> i) (saveTimers w)\<rparr>)"

definition debounceDelay :: int where
  "debounceDelay = 1000"

text \<open>
  \<open>autoSaveAnswer\<close>: the entry is written at once; the pending timer named by the ref
  is cleared and a new one is started, whose callback closes over the arguments of this
  call.
\<close>

definition autoSaveAnswer :: "ExamRender \<Rightarrow> nat \<Rightarrow> string \<Rightarrow> bool \<Rightarrow> int \<Rightarrow> ExamWorld \<Rightarrow> ExamWorld" where
  "autoSaveAnswer env q a flagged now w =
     (let w1 = setAutoSaving True w;
          spent = elapsedSeconds now (questionStartTime env);
          w2 = setUserAnswers
                 (\<lambda>prev. AList.update q
                    \<lparr>questionId = q, answer = a, isFlagged = flagged,
                     timeSpent = (case map_of prev q of
                                    Some existing \<Rightarrow> timeSpent existing + spent
                                  | None \<Rightarrow> spent),
                     startTime = (case map_of prev q of
                                    Some existing \<Rightarrow> startTime existing
                                  | None \<Rightarrow> questionStartTime env)\<rparr> prev) w1;
          w3 = setQuestionStartTime now w2;
          w4 = (if refSet (autoSaveTimeoutRef w3)
                then clearTimeout (autoSaveTimeoutRef w3) w3 else w3);
          i = timerIds w4
      in w4\<lparr>saveTimers := saveTimers w4 @ [(i, now + debounceDelay, q, a, flagged)],
             autoSaveTimeoutRef := Some i, timerIds := Suc i\<rparr>)"

text \<open>
  Time passes: every debounce timer that is due fires, in the order the timers were
  started, and its callback calls \<open>submitAnswer\<close> with the arguments it closes over.
\<close>

definition advance :: "int \<Rightarrow> ExamWorld \<Rightarrow> ExamWorld" where
  "advance now w =
     (let due = filter (\<lambda>(i, d, c). d \<le> now) (saveTimers w)
      in w\<lparr>clock := now,
            saveTimers := filter (\<lambda>(i, d, c). \<not> d \<le> now) (saveTimers w),
            savesInFlight := savesInFlight w + length due,
            calls := calls w @ map (\<lambda>(i, d, q, a, f). AnswerSaved (routeAttemptId w) q a f) due\<rparr>)"

text \<open>The rest of the timer's callback, once \<open>submitAnswer\<close> has answered or thrown.\<close>

definition saveSettled :: "bool \<Rightarrow> string \<Rightarrow> ExamWorld \<Rightarrow> ExamWorld" where
  "saveSettled ok timeText w =
     setAutoSaving False
       (if ok then setLastSaved timeText w
        else alert ''Failed to auto-save your answer. Please check your connection.'' w)"

text \<open>
  \<open>submitExam\<close> up to its call of the API: the payload is built from the
  \<open>userAnswers\<close> of the render the function belongs to. The function sets
  \<open>submitting\<close> and does not read it.
\<close>

definition answersForSubmit :: "(nat \<times> UserAnswer) list \<Rightarrow> (nat \<times> AnswerWithTime) list" where
  "answersForSubmit uas =
     fold (\<lambda>(k, userAnswer) acc.
             AList.update (questionId userAnswer)
               \<lparr>question_id = questionId userAnswer, answer_value = answer userAnswer,
                is_flagged = isFlagged userAnswer, time_spent = timeSpent userAnswer\<rparr> acc)
          uas []"

definition submitExam :: "ExamRender \<Rightarrow> int \<Rightarrow> ExamWorld \<Rightarrow> ExamWorld" where
  "submitExam env now w =
     (let w1 = setSubmitting True w;
          w2 = (case questionAt (questions env) (currentQuestionIndex env) of
                  Some currentQuestion \<Rightarrow>
                    updateQuestionTime (qid currentQuestion)
                      (elapsedSeconds now (questionStartTime env)) w1
                | None \<Rightarrow> w1);
          payload = \<lparr>attempt_id = routeAttemptId w,
                     answers = answersForSubmit (userAnswers env)\<rparr>
      in w2\<lparr>submitsInFlight := Suc (submitsInFlight w2),
             calls := calls w2 @ [ExamSubmitted payload]\<rparr>)"

definition submitSettled :: "bool \<Rightarrow> ExamWorld \<Rightarrow> ExamWorld" where
  "submitSettled ok w =
     setShowSubmitModal False
       (setSubmitting False
          (if ok then alert ''Exam Submitted'' w else alert ''Submission Error'' w))"

definition handleAutoSubmit :: "ExamRender \<Rightarrow> int \<Rightarrow> ExamWorld \<Rightarrow> ExamWorld" where
  "handleAutoSubmit env now w = submitExam env now (alert ''Time's Up!'' w)"

text \<open>
  The effect on \<open>[attempt]\<close>: with a non-zero \<open>time_remaining\<close> it sets the countdown
  and starts an interval whose callback calls the \<open>handleAutoSubmit\<close> of the render
  that ran the effect. \<open>time_remaining\<close> is in whole seconds here, on which
  \<open>Math.floor\<close> is the identity.
\<close>

definition attemptEffect :: "ExamWorld \<Rightarrow> ExamWorld" where
  "attemptEffect w =
     (let env = screen w; w1 = w\<lparr>countdown := None\<rparr>
      in case attempt env of
           None \<Rightarrow> w1
         | Some a \<Rightarrow>
             (if time_remaining a \<noteq> 0
              then (setTimeRemaining (\<lambda>prev. time_remaining a) w1)\<lparr>countdown := Some env\<rparr>
              else w1))"

text \<open>One firing of the countdown interval, with the updater it passes to the setter.\<close>

definition countdownTick :: "ExamRender \<Rightarrow> int \<Rightarrow> ExamWorld \<Rightarrow> ExamWorld" where
  "countdownTick env now w =
     (if timeRemaining (screen w) \<le> 0
      then setTimeRemaining (\<lambda>prev. 0) (handleAutoSubmit env now (w\<lparr>countdown := None\<rparr>))
      else setTimeRemaining (\<lambda>prev. prev - 1) w)"

subsection \<open>Events of the screen\<close>

text \<open>
  Handlers of the user interface belong to the latest render; the countdown callback
  belongs to the render stored with the interval. Every event carries the time at which
  it happens; the clock does not run backwards.

  Of \<open>loadExamData\<close> the events keep the two state changes the handlers depend on,
  which a network round trip separates: the attempt, then the questions in the order
  the sort has given them. The grouping by subject is display state and is left out.
\<close>

datatype exam_event =
    AttemptLoaded ExamAttempt int
  | QuestionsLoaded "Question list" int
  | AnswerEdited nat string bool int
  | Navigated int int
  | TimePassed int
  | CountdownFires int
  | SubmitTapped int
  | SubmitDone bool int
  | SaveDone bool string int

fun eventTime :: "exam_event \<Rightarrow> int" where
  "eventTime (AttemptLoaded a now) = now"
| "eventTime (QuestionsLoaded qs now) = now"
| "eventTime (AnswerEdited q a f now) = now"
| "eventTime (Navigated i now) = now"
| "eventTime (TimePassed now) = now"
| "eventTime (CountdownFires now) = now"
| "eventTime (SubmitTapped now) = now"
| "eventTime (SubmitDone ok now) = now"
| "eventTime (SaveDone ok t now) = now"

fun handle :: "exam_event \<Rightarrow> ExamWorld \<Rightarrow> ExamWorld option" where
  "handle (AttemptLoaded a now) w =
     Some (attemptEffect (w\<lparr>screen := (screen w)\<lparr>attempt := Some a\<rparr>\<rparr>))"
| "handle (QuestionsLoaded qs now) w =
     Some (trackingEffect now (w\<lparr>screen := (screen w)\<lparr>questions := qs\<rparr>\<rparr>))"
| "handle (AnswerEdited q a f now) w = Some (autoSaveAnswer (screen w) q a f now w)"
| "handle (Navigated i now) w =
     (let w1 = navigateToQuestion (screen w) i now w
      in if currentQuestionIndex (screen w) = i then Some w1 else Some (trackingEffect now w1))"
| "handle (TimePassed now) w = Some w"
| "handle (CountdownFires now) w =
     (case countdown w of None \<Rightarrow> None | Some env \<Rightarrow> Some (countdownTick env now w))"
| "handle (SubmitTapped now) w = Some (submitExam (screen w) now w)"
| "handle (SubmitDone ok now) w =
     (if submitsInFlight w = 0 then None
      else Some (submitSettled ok (w\<lparr>submitsInFlight := submitsInFlight w - 1\<rparr>)))"
| "handle (SaveDone ok t now) w =
     (if savesInFlight w = 0 then None
      else Some (saveSettled ok t (w\<lparr>savesInFlight := savesInFlight w - 1\<rparr>)))"

definition examStep :: "exam_event \<Rightarrow> ExamWorld \<Rightarrow> ExamWorld option" where
  "examStep e w = (if eventTime e < clock w then None else handle e (advance (eventTime e) w))"

fun examRun :: "exam_event list \<Rightarrow> ExamWorld \<Rightarrow> ExamWorld option" where
  "examRun [] w = Some w"
| "examRun (e # es) w = (case examStep e w of None \<Rightarrow> None | Some w' \<Rightarrow> examRun es w')"

text \<open>The seconds recorded for a question: those of its entry, if it has one.\<close>

definition timeSpentOf :: "ExamWorld \<Rightarrow> nat \<Rightarrow> int option" where
  "timeSpentOf w q = map_option timeSpent (map_of (userAnswers (screen w)) q)"

definition savesMade :: "ExamWorld \<Rightarrow> (nat \<times> string \<times> bool) list" where
  "savesMade w =
     concat (map (\<lambda>c. case c of AnswerSaved aid q a f \<Rightarrow> [(q, a, f)] | _ \<Rightarrow> []) (calls w))"

definition submitsMade :: "ExamWorld \<Rightarrow> SubmitExamPayload list" where
  "submitsMade w =
     concat (map (\<lambda>c. case c of ExamSubmitted p \<Rightarrow> [p] | _ \<Rightarrow> []) (calls w))"

text \<open>
  A burst of edits to one question: each edit is the handler \<open>autoSaveAnswer\<close> of the
  latest render, run when the clock has reached the time of the edit.
\<close>

fun burst :: "nat \<Rightarrow> (int \<times> string \<times> bool) list \<Rightarrow> ExamWorld \<Rightarrow> ExamWorld" where
  "burst q [] w = w"
| "burst q ((t, a, f) # es) w =
     burst q es (autoSaveAnswer (screen (advance t w)) q a f t (advance t w))"

text \<open>Each edit of the list comes less than the debounce delay after the one before.\<close>

fun rapid :: "int \<Rightarrow> (int \<times> string \<times> bool) list \<Rightarrow> bool" where
  "rapid t [] = True"
| "rapid t ((t', a, f) # es) = (t \<le> t' \<and> t' < t + debounceDelay \<and> rapid t' es)"

text \<open>
  A well-formed timer table: ids start at one and are handed out in increasing order,
  and the only debounce timer that can be pending is the one the ref names.
\<close>

definition timersOk :: "ExamWorld \<Rightarrow> bool" where
  "timersOk w =
     (0 < timerIds w
      \<and> (\<forall>(i, d, c) \<in> set (saveTimers w). autoSaveTimeoutRef w = Some i \<and> i \<noteq> 0 \<and> i < timerIds w)
      \<and> distinct (map fst (saveTimers w)))"

text \<open>
  The start times held by the screen, by the cleanup of the tracking effect and by the
  render of the countdown are not in the future.
\<close>

definition timeOk :: "ExamWorld \<Rightarrow> bool" where
  "timeOk w =
     (questionStartTime (screen w) \<le> clock w
      \<and> (case tracking w of None \<Rightarrow> True | Some (q, start) \<Rightarrow> start \<le> clock w)
      \<and> (case countdown w of None \<Rightarrow> True | Some env \<Rightarrow> questionStartTime env \<le> clock w))"

text \<open>Every entry of the first world is an entry of the second, with at least its seconds.\<close>

definition grows :: "ExamWorld \<Rightarrow> ExamWorld \<Rightarrow> bool" where
  "grows w w' =
     (\<forall>q s. timeSpentOf w q = Some s \<longrightarrow> (\<exists>s'. timeSpentOf w' q = Some s' \<and> s \<le> s'))"

definition recordedAfter :: "exam_event list \<Rightarrow> ExamWorld \<Rightarrow> nat \<Rightarrow> int option option" where
  "recordedAfter evs w q = map_option (\<lambda>w'. timeSpentOf w' q) (examRun evs w)"

section \<open>The screen with its hook\<close>

text \<open>
  \<open>ExamScreen\<close> calls \<open>useProctoring\<close> with the attempt's
  \<open>proctoring_enabled\<close> as the prop, so the hook learns that proctoring is enabled
  when the attempt is loaded, and from nowhere else. The functions of the hook hold no
  setter of the screen and the handlers of the screen hold no setter of the hook: an
  event of the one leaves the state of the other as it is.
\<close>

record Session =
  proctoring :: World
  exam :: ExamWorld

datatype session_event = HookEvent event | ScreenEvent exam_event

fun sessionStep :: "session_event \<Rightarrow> Session \<Rightarrow> Session option" where
  "sessionStep (HookEvent ProctoringEnabled) s = None"
| "sessionStep (HookEvent e) s =
     (case step e (proctoring s) of None \<Rightarrow> None | Some w \<Rightarrow> Some (s\<lparr>proctoring := w\<rparr>))"
| "sessionStep (ScreenEvent (AttemptLoaded a now)) s =
     (case examStep (AttemptLoaded a now) (exam s) of
        None \<Rightarrow> None
      | Some x \<Rightarrow>
          (if proctoring_enabled a
           then (case step ProctoringEnabled (proctoring s) of
                   None \<Rightarrow> None
                 | Some w \<Rightarrow> Some \<lparr>proctoring = w, exam = x\<rparr>)
           else Some (s\<lparr>exam := x\<rparr>)))"
| "sessionStep (ScreenEvent e) s =
     (case examStep e (exam s) of None \<Rightarrow> None | Some x \<Rightarrow> Some (s\<lparr>exam := x\<rparr>))"

fun sessionRun :: "session_event list \<Rightarrow> Session \<Rightarrow> Session option" where
  "sessionRun [] s = Some s"
| "sessionRun (e # es) s =
     (case sessionStep e s of None \<Rightarrow> None | Some s' \<Rightarrow> sessionRun es s')"

text \<open>The world a list of events leads to; the starting world when the list cannot happen.\<close>

definition after :: "event list \<Rightarrow> World \<Rightarrow> World" where
  "after evs w = (case run evs w of Some w' \<Rightarrow> w' | None \<Rightarrow> w)"

definition examAfter :: "exam_event list \<Rightarrow> ExamWorld \<Rightarrow> ExamWorld" where
  "examAfter evs w = (case examRun evs w of Some w' \<Rightarrow> w' | None \<Rightarrow> w)"

definition sessionAfter :: "session_event list \<Rightarrow> Session \<Rightarrow> Session" where
  "sessionAfter evs s = (case sessionRun evs s of Some s' \<Rightarrow> s' | None \<Rightarrow> s)"

section \<open>Concrete inputs\<close>

definition examplePlatform :: Platform where
  "examplePlatform =
     \<lparr>platformOS = ''android'', userAgentText = ''Mobile App android 33'',
      resolutionText = ''360x800'', timeZoneText = ''Asia/Kolkata''\<rparr>"

definition exampleResponse :: "Violation list \<Rightarrow> int \<Rightarrow> bool \<Rightarrow> SnapshotResponse" where
  "exampleResponse vs n d =
     \<lparr>snapshot_uploaded = True,
      analysis = \<lparr>success = True, error = [], violations = Some vs, faces_detected = 1\<rparr>,
      violation_count = n, auto_disqualified = d, storage_type = ''local''\<rparr>"

definition w0 :: World where
  "w0 = initialWorld 7 examplePlatform"

text \<open>
  The attempt is loaded with proctoring enabled, the permission is granted and the
  camera is mounted: the render in which all four dependencies hold runs the effect,
  and the effect calls \<open>startProctoring\<close>.
\<close>

definition arming :: "event list" where
  "arming = [ProctoringEnabled, PermissionResult True, CameraRefSet]"

text \<open>One whole cycle after arming: the first timer fires, the camera delivers, the server answers.\<close>

definition cycleWith :: "js_error + SnapshotResponse \<Rightarrow> event list" where
  "cycleWith res =
     arming @ [TimeoutFires, CaptureDone (Some ''abc'') ''t0'', UploadDone res ''12:00:00'']"

definition twoCycles :: "event list" where
  "twoCycles =
     cycleWith (Inr (exampleResponse [\<lparr>vtype = ''no_face''\<rparr>] 3 False))
       @ [IntervalFires, CaptureDone (Some ''abc'') ''t1'', UploadDone (Inl NetworkError) ''12:00:05'']"

definition countAfter :: "event list \<Rightarrow> World \<Rightarrow> int option" where
  "countAfter evs w = map_option (violationCount \<circ> cur) (run evs w)"

text \<open>
  The system dialog that asks for the camera makes the app inactive; the permission is
  granted while it is, and the effect arms the timers in that render.
\<close>

definition armingWhileInactive :: "event list" where
  "armingWhileInactive =
     [ProctoringEnabled, CameraRefSet, AppStateChanged ''inactive'', PermissionResult True,
      AppStateChanged ''active'']"

definition inactiveArmed :: World where
  "inactiveArmed = after armingWhileInactive w0"

definition inactiveRender :: Render where
  "inactiveRender =
     initialRender\<lparr>isProctoringEnabled := True, cameraReady := True, hasPermission := True,
                    appState := ''inactive''\<rparr>"

definition exampleQuestions :: "Question list" where
  "exampleQuestions = [\<lparr>qid = 11, subject = ''Maths''\<rparr>, \<lparr>qid = 12, subject = ''Maths''\<rparr>]"

definition exampleAttempt :: ExamAttempt where
  "exampleAttempt = \<lparr>time_remaining = 1, proctoring_enabled = False\<rparr>"

definition e0 :: ExamWorld where
  "e0 = initialExamWorld 7 0"

text \<open>
  The attempt and the questions are loaded, and the student answers question 11 two
  seconds after it has come on screen.
\<close>

definition answering :: "exam_event list" where
  "answering =
     [AttemptLoaded exampleAttempt 100, QuestionsLoaded exampleQuestions 200,
      AnswerEdited 11 ''A'' False 2200]"

definition answeredScreen :: ExamWorld where
  "answeredScreen = examAfter answering e0"

definition thereAndBack :: "exam_event list" where
  "thereAndBack = [Navigated 1 5000, Navigated 0 9000]"

definition exampleBurst :: "(int \<times> string \<times> bool) list" where
  "exampleBurst = [(0, ''A'', False), (500, ''AB'', False), (1400, ''ABC'', True)]"

text \<open>
  The attempt is loaded with one second left, then the questions; the student answers
  question 11; the countdown fires twice, from one to zero and then at zero.
\<close>

definition answerThenExpire :: "exam_event list" where
  "answerThenExpire =
     [AttemptLoaded exampleAttempt 100, QuestionsLoaded exampleQuestions 200,
      AnswerEdited 11 ''A'' False 3200, CountdownFires 3300, CountdownFires 4300]"

text \<open>The same, with the student tapping Submit between the two firings.\<close>

definition answerTapThenExpire :: "exam_event list" where
  "answerTapThenExpire =
     [AttemptLoaded exampleAttempt 100, QuestionsLoaded exampleQuestions 200,
      AnswerEdited 11 ''A'' False 3200, CountdownFires 3300, SubmitTapped 3400,
      CountdownFires 4300]"

definition proctoredAttempt :: ExamAttempt where
  "proctoredAttempt = \<lparr>time_remaining = 3600, proctoring_enabled = True\<rparr>"

definition s0 :: Session where
  "s0 = \<lparr>proctoring = w0, exam = e0\<rparr>"

text \<open>
  A proctored exam: attempt and questions loaded, permission granted, camera mounted;
  then the first timer fires, and the camera delivers the image.
\<close>

definition sessionArming :: "session_event list" where
  "sessionArming =
     [ScreenEvent (AttemptLoaded proctoredAttempt 100),
      ScreenEvent (QuestionsLoaded exampleQuestions 200),
      HookEvent (PermissionResult True), HookEvent CameraRefSet]"

definition capturingSession :: Session where
  "capturingSession = sessionAfter (sessionArming @ [HookEvent TimeoutFires]) s0"

definition uploadingSession :: Session where
  "uploadingSession =
     sessionAfter
       (sessionArming @ [HookEvent TimeoutFires, HookEvent (CaptureDone (Some ''abc'') ''t0'')]) s0"

text \<open>From there every cycle fails: the upload, then a capture, then an upload again.\<close>

definition failingCycles :: "event list" where
  "failingCycles =
     [UploadDone (Inl NetworkError) ''12:00:00'', IntervalFires, CaptureDone None ''t1'',
      IntervalFires, CaptureDone (Some ''abc'') ''t2'', UploadDone (Inl AuthError) ''12:00:10'']"

definition allFailedSession :: Session where
  "allFailedSession = sessionAfter (map HookEvent failingCycles) uploadingSession"

section \<open>Properties of the proctoring hook\<close>

lemmas setters = setSnapshotCount_def setLastSnapshotTime_def setIsTakingSnapshot_def
  setViolationCount_def setAppState_def setCameraReady_def setHasPermission_def
  setViolationModal_def

subsection \<open>The violation notice\<close>

lemma handled_iff: "t \<in> set handledTypes \<longleftrightarrow> getViolationDetails t \<noteq> None"
  by (simp add: handledTypes_def getViolationDetails_def)

text \<open>
  C10. The display of a violation is total on the five handled type strings only. For
  any other string, \<open>getViolationDetails\<close> returns no details, and
  \<open>showViolationModal\<close> throws a TypeError on reading the title of \<open>undefined\<close>
  and leaves the world as it was: no notice is set. The string \<open>disqualified\<close>,
  which the auto-disqualification branch passes, is such a string (see the witness).
\<close>

theorem violation_display_total_only_on_handled_types:
  "(t \<in> set handledTypes \<longrightarrow>
      getViolationDetails t \<noteq> None \<and> fst (showViolationModal t n d w) = None)
   \<and> (t \<notin> set handledTypes \<longrightarrow>
      getViolationDetails t = None \<and> showViolationModal t n d w = (Some TypeError, w))"
  using handled_iff[of t]
  by (auto simp: showViolationModal_def Let_def split: option.splits)

theorem violation_display_total_only_on_handled_types_witness:
  "''no_face'' \<in> set handledTypes \<and> ''disqualified'' \<notin> set handledTypes
   \<and> fst (showViolationModal ''no_face'' 1 False w0) = None
   \<and> getViolationDetails ''disqualified'' = None
   \<and> showViolationModal ''disqualified'' 10 True w0 = (Some TypeError, w0)"
  using violation_display_total_only_on_handled_types[of "''no_face''" 1 False w0]
    violation_display_total_only_on_handled_types[of "''disqualified''" 10 True w0]
  by (simp add: handledTypes_def)

text \<open>
  For a handled type the notice of a cycle is set exactly once, with the first type of
  the list and the count of the same response, also when the response disqualifies:
  the second call of \<open>showViolationModal\<close> then throws.
\<close>

lemma handled_violation_shown_once:
  assumes "getViolationDetails (vtype v) = Some details"
    and "violations (analysis r) = Some (v # vs)"
  shows "modalsShown (snd (processResponse r t w)) =
           modalsShown w @
             [\<lparr>visible = True, violationType = vtype v, violationTitle = title details,
               violationMessage = message details, totalViolations = violation_count r,
               isDisqualified = False\<rparr>]"
proof -
  have d: "getViolationDetails ''disqualified'' = None"
    by (simp add: getViolationDetails_def)
  show ?thesis
    using assms d
    by (simp add: processResponse_def showViolationModal_def Let_def setters modalsShown_def)
qed

text \<open>
  C3, at a response whose only violation has a type outside the five: the cycle
  completes, the count is taken over, and no notice is set; the notice stays hidden.
\<close>

theorem unhandled_violation_type_shows_no_notice:
  "map_option modalsShown
     (run (cycleWith (Inr (exampleResponse [\<lparr>vtype = ''phone_detected''\<rparr>] 1 False))) w0) = Some []
   \<and> map_option (visible \<circ> violationModal \<circ> cur)
     (run (cycleWith (Inr (exampleResponse [\<lparr>vtype = ''phone_detected''\<rparr>] 1 False))) w0) = Some False
   \<and> map_option (violationCount \<circ> cur)
     (run (cycleWith (Inr (exampleResponse [\<lparr>vtype = ''phone_detected''\<rparr>] 1 False))) w0) = Some 1"
  by code_simp

text \<open>
  C4, at a response with \<open>auto_disqualified = true\<close> and an empty violation list: the
  cycle completes, the count is taken over, and no notice is set; the modal state keeps
  \<open>isDisqualified = false\<close> and stays hidden.
\<close>

theorem auto_disqualified_shows_no_notice:
  "map_option modalsShown (run (cycleWith (Inr (exampleResponse [] 10 True))) w0) = Some []
   \<and> map_option (isDisqualified \<circ> violationModal \<circ> cur)
       (run (cycleWith (Inr (exampleResponse [] 10 True))) w0) = Some False
   \<and> map_option (visible \<circ> violationModal \<circ> cur)
       (run (cycleWith (Inr (exampleResponse [] 10 True))) w0) = Some False
   \<and> map_option (violationCount \<circ> cur)
       (run (cycleWith (Inr (exampleResponse [] 10 True))) w0) = Some 10"
  by code_simp

text \<open>
  \<open>closeViolationModal\<close> sets \<open>visible\<close> to false and leaves every other field of
  the modal state as it was, whatever \<open>isDisqualified\<close> is, and the action button of
  the notice calls it in every state. Only the platform's request to close is disabled
  while \<open>isDisqualified\<close> is true.
\<close>

lemma close_always_hides_and_only_request_close_is_blocked:
  "violationModal (cur (closeViolationModal w)) = (violationModal (cur w))\<lparr>visible := False\<rparr>
   \<and> onPressActionButton w = closeViolationModal w
   \<and> (isDisqualified (violationModal (cur w)) \<longrightarrow> onRequestClose w = w)
   \<and> (\<not> isDisqualified (violationModal (cur w)) \<longrightarrow> onRequestClose w = closeViolationModal w)"
  by (simp add: closeViolationModal_def onPressActionButton_def onRequestClose_def setters)

subsection \<open>The violation count\<close>

lemma count_show:
  "violationCount (cur (snd (showViolationModal t n d w))) = violationCount (cur w)"
  by (simp add: showViolationModal_def setters Let_def split: option.splits)

lemma count_show_pair:
  "showViolationModal t n d w = (e, w') \<Longrightarrow> violationCount (cur w') = violationCount (cur w)"
  using count_show[of t n d w] by simp

lemma count_processResponse:
  "violationCount (cur (snd (processResponse r t w))) = violation_count r"
  by (auto simp: processResponse_def Let_def setters count_show
           split: prod.splits option.splits if_splits dest!: count_show_pair)

lemma count_uploadSettled_ok:
  "violationCount (cur (snd (uploadSettled (Inr r) t w))) = violation_count r"
  using count_processResponse[of r t w]
  by (auto simp: uploadSettled_def setIsTakingSnapshot_def split: prod.splits option.splits)

lemma count_uploadSettled_err:
  "violationCount (cur (snd (uploadSettled (Inl e) t w))) = violationCount (cur w)"
  by (simp add: uploadSettled_def setIsTakingSnapshot_def)

lemma count_captureSettled:
  "violationCount (cur (snd (captureSettled img ts w))) = violationCount (cur w)"
  by (simp add: captureSettled_def setIsTakingSnapshot_def split: option.splits)

lemma count_take:
  "violationCount (cur (snd (takeAndUploadSnapshot env w))) = violationCount (cur w)"
  by (simp add: takeAndUploadSnapshot_def setIsTakingSnapshot_def Let_def)

lemma cur_clearInterval: "cur (clearInterval r w) = cur w"
  by (simp add: clearInterval_def split: option.splits)

lemma cur_stop: "cur (stopProctoring w) = cur w"
  by (simp add: stopProctoring_def cur_clearInterval)

lemma cur_start: "cur (startProctoring env w) = cur w"
  by (simp add: startProctoring_def Let_def cur_clearInterval)

lemma cur_proctoringEffect: "cur (proctoringEffect w) = cur w"
  by (simp add: proctoringEffect_def Let_def cur_start cur_stop)

lemma cur_appStateEffect: "cur (appStateEffect w) = cur w"
  by (simp add: appStateEffect_def Let_def cur_start cur_stop)

lemma count_close: "violationCount (cur (closeViolationModal w)) = violationCount (cur w)"
  by (simp add: closeViolationModal_def setters)

lemma count_step:
  assumes "step e w = Some w'"
  shows "violationCount (cur w') = serverCount [e] (violationCount (cur w))"
proof (cases e)
  case (UploadDone res t)
  then show ?thesis
    using assms
    by (cases res) (auto simp: count_uploadSettled_ok count_uploadSettled_err split: if_splits)
next
  case (CaptureDone img ts)
  then show ?thesis using assms by (auto simp: count_captureSettled split: if_splits)
next
  case TimeoutFires
  then show ?thesis using assms by (auto simp: count_take split: list.splits)
next
  case IntervalFires
  then show ?thesis using assms by (auto simp: count_take split: list.splits)
next
  case ProctoringEnabled
  then show ?thesis using assms by (auto simp: cur_proctoringEffect split: if_splits)
next
  case (PermissionResult g)
  then show ?thesis
    using assms by (auto simp: cur_proctoringEffect setters Let_def split: if_splits)
next
  case CameraRefSet
  then show ?thesis
    using assms by (auto simp: cur_proctoringEffect setters Let_def split: if_splits)
next
  case (AppStateChanged a)
  then show ?thesis using assms by (auto simp: cur_appStateEffect setters split: if_splits)
next
  case ActionButtonPressed
  then show ?thesis
    using assms by (auto simp: onPressActionButton_def count_close split: if_splits)
next
  case CloseRequested
  then show ?thesis using assms by (auto simp: onRequestClose_def count_close split: if_splits)
next
  case Unmounted
  then show ?thesis using assms by (auto simp: cur_stop)
qed

lemma serverCount_step: "serverCount (e # es) c = serverCount es (serverCount [e] c)"
  by (induction "e # es" c rule: serverCount.induct) auto

lemma count_run:
  "run evs w = Some w' \<Longrightarrow> violationCount (cur w') = serverCount evs (violationCount (cur w))"
proof (induction evs arbitrary: w)
  case Nil
  then show ?case by simp
next
  case (Cons e es)
  then obtain w1 where s: "step e w = Some w1" and r: "run es w1 = Some w'"
    by (auto split: option.splits)
  have "violationCount (cur w') = serverCount es (violationCount (cur w1))"
    using Cons.IH[OF r] .
  also have "\<dots> = serverCount es (serverCount [e] (violationCount (cur w)))"
    using count_step[OF s] by simp
  finally show ?case using serverCount_step[of e es] by simp
qed

text \<open>
  C2. After any sequence of events of the hook, \<open>violationCount\<close> is the
  \<open>violation_count\<close> of the last response the server gave, and the starting value
  when it gave none: no other event, a failed capture or upload among them, changes it,
  and nothing is ever added to it.
\<close>

theorem violationCount_is_last_server_count:
  "run evs w \<noteq> None \<Longrightarrow> countAfter evs w = Some (serverCount evs (violationCount (cur w)))"
  using count_run[of evs w] by (auto simp: countAfter_def)

theorem violationCount_is_last_server_count_witness:
  "run twoCycles w0 \<noteq> None \<and> countAfter twoCycles w0 = Some 3"
proof -
  have h: "run twoCycles w0 \<noteq> None" by code_simp
  have c: "serverCount twoCycles (violationCount (cur w0)) = 3" by code_simp
  show ?thesis using h violationCount_is_last_server_count[OF h] c by simp
qed

subsection \<open>The disqualification flag\<close>

text \<open>
  No event of the hook sets \<open>isDisqualified\<close>: the only call that passes \<open>true\<close>
  passes the type \<open>disqualified\<close>, for which there are no details.
\<close>

lemma disq_show:
  "isDisqualified (violationModal (cur (snd (showViolationModal t n d w)))) =
     (if getViolationDetails t = None then isDisqualified (violationModal (cur w)) else d)"
  by (simp add: showViolationModal_def setters Let_def split: option.splits)

lemma disq_show_pair:
  "showViolationModal t n d w = (e, w') \<Longrightarrow>
     isDisqualified (violationModal (cur w')) =
       (if getViolationDetails t = None then isDisqualified (violationModal (cur w)) else d)"
  using disq_show[of t n d w] by simp

lemma disq_processResponse:
  assumes "\<not> isDisqualified (violationModal (cur w))"
  shows "\<not> isDisqualified (violationModal (cur (snd (processResponse r t w))))"
proof -
  have d: "getViolationDetails ''disqualified'' = None"
    by (simp add: getViolationDetails_def)
  show ?thesis
    using assms d
    by (auto simp: processResponse_def Let_def setters disq_show
             split: prod.splits option.splits if_splits dest!: disq_show_pair)
qed

lemma disq_step:
  assumes "step e w = Some w'" "\<not> isDisqualified (violationModal (cur w))"
  shows "\<not> isDisqualified (violationModal (cur w'))"
proof (cases e)
  case (UploadDone res t)
  show ?thesis
  proof (cases res)
    case (Inl err)
    then show ?thesis using assms UploadDone
      by (auto simp: uploadSettled_def setters split: if_splits)
  next
    case (Inr r)
    let ?v = "w\<lparr>uploading := uploading w - 1\<rparr>"
    have "\<not> isDisqualified (violationModal (cur (snd (processResponse r t ?v))))"
      using disq_processResponse[of ?v r t] assms(2) by simp
    then show ?thesis using assms UploadDone Inr
      by (auto simp: uploadSettled_def setters split: if_splits prod.splits option.splits)
  qed
next
  case (CaptureDone img ts)
  then show ?thesis using assms
    by (auto simp: captureSettled_def setters split: if_splits option.splits)
next
  case TimeoutFires
  then show ?thesis using assms
    by (auto simp: takeAndUploadSnapshot_def setters Let_def split: list.splits if_splits)
next
  case IntervalFires
  then show ?thesis using assms
    by (auto simp: takeAndUploadSnapshot_def setters Let_def split: list.splits if_splits)
next
  case ProctoringEnabled
  then show ?thesis using assms by (auto simp: cur_proctoringEffect split: if_splits)
next
  case (PermissionResult g)
  then show ?thesis
    using assms by (auto simp: cur_proctoringEffect setters Let_def split: if_splits)
next
  case CameraRefSet
  then show ?thesis
    using assms by (auto simp: cur_proctoringEffect setters Let_def split: if_splits)
next
  case (AppStateChanged a)
  then show ?thesis using assms by (auto simp: cur_appStateEffect setters split: if_splits)
next
  case ActionButtonPressed
  then show ?thesis
    using assms by (auto simp: onPressActionButton_def closeViolationModal_def setters split: if_splits)
next
  case CloseRequested
  then show ?thesis using assms by (auto simp: onRequestClose_def closeViolationModal_def setters split: if_splits)
next
  case Unmounted
  then show ?thesis using assms by (auto simp: cur_stop)
qed

lemma disqualification_notice_unreachable:
  "run evs w = Some w' \<Longrightarrow> \<not> isDisqualified (violationModal (cur w)) \<Longrightarrow>
     \<not> isDisqualified (violationModal (cur w'))"
proof (induction evs arbitrary: w)
  case Nil
  then show ?case by simp
next
  case (Cons e es)
  then obtain w1 where s: "step e w = Some w1" and r: "run es w1 = Some w'"
    by (auto split: option.splits)
  show ?case using Cons.IH[OF r disq_step[OF s Cons.prems(2)]] .
qed

subsection \<open>Failed cycles\<close>

lemma hook_event_keeps_exam:
  "sessionStep (HookEvent e) s = Some s' \<Longrightarrow> exam s' = exam s"
  by (cases e) (auto split: option.splits)

lemma hook_events_keep_exam:
  "sessionRun (map HookEvent evs) s = Some s' \<Longrightarrow> exam s' = exam s"
proof (induction evs arbitrary: s)
  case Nil
  then show ?case by simp
next
  case (Cons e es)
  then obtain s1 where 1: "sessionStep (HookEvent e) s = Some s1"
    and 2: "sessionRun (map HookEvent es) s1 = Some s'"
    by (auto split: option.splits)
  show ?case using Cons.IH[OF 2] hook_event_keeps_exam[OF 1] by simp
qed

text \<open>
  C5. A cycle whose upload throws, or whose capture yields no image, changes nothing
  but the busy flag, which it clears: the snapshot count, the last snapshot time, the
  violation count and the notice stay as they were, no notice is set, and the interval
  and its ref are untouched. The promise of the cycle is fulfilled, not rejected. In
  the session of screen and hook, the failed cycle leaves the state of the exam as it
  was; and after any sequence of events of the hook, failed cycles among them, the exam
  is as it was and an edit of an answer is handled as before.
\<close>

theorem failed_cycle_is_swallowed:
  "(0 < uploading w \<longrightarrow>
      step (UploadDone (Inl err) t) w
        = Some (w\<lparr>uploading := uploading w - 1, cur := (cur w)\<lparr>isTakingSnapshot := False\<rparr>\<rparr>))
   \<and> (0 < capturing w \<longrightarrow>
      step (CaptureDone None ts) w
        = Some (w\<lparr>capturing := capturing w - 1, cur := (cur w)\<lparr>isTakingSnapshot := False\<rparr>\<rparr>))
   \<and> (\<not> isTakingSnapshot env \<and> cameraReady env \<and> hasPermission env \<and> \<not> canCapture env w \<longrightarrow>
      snd (takeAndUploadSnapshot env w) = w\<lparr>cur := (cur w)\<lparr>isTakingSnapshot := False\<rparr>\<rparr>)
   \<and> fst (uploadSettled (Inl err) t w) = Fulfilled None
   \<and> fst (captureSettled None ts w) = Some (Fulfilled None)
   \<and> fst (takeAndUploadSnapshot env w) \<noteq> Some (Rejected err)
   \<and> (0 < uploading (proctoring s) \<longrightarrow>
      sessionStep (HookEvent (UploadDone (Inl err) t)) s
        = Some (s\<lparr>proctoring := (proctoring s)
                   \<lparr>uploading := uploading (proctoring s) - 1,
                    cur := (cur (proctoring s))\<lparr>isTakingSnapshot := False\<rparr>\<rparr>\<rparr>))
   \<and> (0 < capturing (proctoring s) \<longrightarrow>
      sessionStep (HookEvent (CaptureDone None ts)) s
        = Some (s\<lparr>proctoring := (proctoring s)
                   \<lparr>capturing := capturing (proctoring s) - 1,
                    cur := (cur (proctoring s))\<lparr>isTakingSnapshot := False\<rparr>\<rparr>\<rparr>))
   \<and> (sessionRun (map HookEvent evs) s = Some s' \<longrightarrow>
      exam s' = exam s
      \<and> (clock (exam s) \<le> now \<longrightarrow>
           sessionStep (ScreenEvent (AnswerEdited q a f now)) s'
             = Some (s'\<lparr>exam := autoSaveAnswer (screen (advance now (exam s))) q a f now
                                  (advance now (exam s))\<rparr>)))"
proof -
  have hook: "(0 < uploading w \<longrightarrow>
      step (UploadDone (Inl err) t) w
        = Some (w\<lparr>uploading := uploading w - 1, cur := (cur w)\<lparr>isTakingSnapshot := False\<rparr>\<rparr>))
   \<and> (0 < capturing w \<longrightarrow>
      step (CaptureDone None ts) w
        = Some (w\<lparr>capturing := capturing w - 1, cur := (cur w)\<lparr>isTakingSnapshot := False\<rparr>\<rparr>))
   \<and> (\<not> isTakingSnapshot env \<and> cameraReady env \<and> hasPermission env \<and> \<not> canCapture env w \<longrightarrow>
      snd (takeAndUploadSnapshot env w) = w\<lparr>cur := (cur w)\<lparr>isTakingSnapshot := False\<rparr>\<rparr>)
   \<and> fst (uploadSettled (Inl err) t w) = Fulfilled None
   \<and> fst (captureSettled None ts w) = Some (Fulfilled None)
   \<and> fst (takeAndUploadSnapshot env w) \<noteq> Some (Rejected err)"
    by (simp add: uploadSettled_def captureSettled_def takeAndUploadSnapshot_def canCapture_def
          setters Let_def)
  have up: "0 < uploading (proctoring s) \<longrightarrow>
      sessionStep (HookEvent (UploadDone (Inl err) t)) s
        = Some (s\<lparr>proctoring := (proctoring s)
                   \<lparr>uploading := uploading (proctoring s) - 1,
                    cur := (cur (proctoring s))\<lparr>isTakingSnapshot := False\<rparr>\<rparr>\<rparr>)"
    by (simp add: uploadSettled_def setters)
  have cap: "0 < capturing (proctoring s) \<longrightarrow>
      sessionStep (HookEvent (CaptureDone None ts)) s
        = Some (s\<lparr>proctoring := (proctoring s)
                   \<lparr>capturing := capturing (proctoring s) - 1,
                    cur := (cur (proctoring s))\<lparr>isTakingSnapshot := False\<rparr>\<rparr>\<rparr>)"
    by (simp add: captureSettled_def setters)
  have ex: "sessionRun (map HookEvent evs) s = Some s' \<longrightarrow>
      exam s' = exam s
      \<and> (clock (exam s) \<le> now \<longrightarrow>
           sessionStep (ScreenEvent (AnswerEdited q a f now)) s'
             = Some (s'\<lparr>exam := autoSaveAnswer (screen (advance now (exam s))) q a f now
                                  (advance now (exam s))\<rparr>))"
    using hook_events_keep_exam[of evs s s'] by (auto simp: examStep_def)
  show ?thesis using hook up cap ex by blast
qed

text \<open>
  The sessions and the world used below are what their events lead to from the start:
  in the first a capture is awaited, in the second an upload, with the busy flag set and
  the interval armed in both; in the third every cycle since has failed.
\<close>

lemma example_sessions_reachable:
  "sessionRun (sessionArming @ [HookEvent TimeoutFires]) s0 = Some capturingSession"
  "sessionRun (sessionArming @ [HookEvent TimeoutFires,
                 HookEvent (CaptureDone (Some ''abc'') ''t0'')]) s0 = Some uploadingSession"
  "sessionRun (map HookEvent failingCycles) uploadingSession = Some allFailedSession"
  "run armingWhileInactive w0 = Some inactiveArmed"
  "timeouts inactiveArmed = [inactiveRender]"
  by code_simp+

theorem failed_cycle_is_swallowed_witness:
  "0 < uploading (proctoring uploadingSession)
   \<and> isTakingSnapshot (cur (proctoring uploadingSession))
   \<and> intervals (proctoring uploadingSession) \<noteq> []
   \<and> step (UploadDone (Inl NetworkError) ''12:00:00'') (proctoring uploadingSession)
       = Some ((proctoring uploadingSession)
                 \<lparr>uploading := uploading (proctoring uploadingSession) - 1,
                  cur := (cur (proctoring uploadingSession))\<lparr>isTakingSnapshot := False\<rparr>\<rparr>)
   \<and> sessionStep (HookEvent (UploadDone (Inl NetworkError) ''12:00:00'')) uploadingSession
       = Some (uploadingSession\<lparr>proctoring := (proctoring uploadingSession)
                 \<lparr>uploading := uploading (proctoring uploadingSession) - 1,
                  cur := (cur (proctoring uploadingSession))\<lparr>isTakingSnapshot := False\<rparr>\<rparr>\<rparr>)
   \<and> 0 < capturing (proctoring capturingSession)
   \<and> isTakingSnapshot (cur (proctoring capturingSession))
   \<and> intervals (proctoring capturingSession) \<noteq> []
   \<and> step (CaptureDone None ''t0'') (proctoring capturingSession)
       = Some ((proctoring capturingSession)
                 \<lparr>capturing := capturing (proctoring capturingSession) - 1,
                  cur := (cur (proctoring capturingSession))\<lparr>isTakingSnapshot := False\<rparr>\<rparr>)
   \<and> sessionStep (HookEvent (CaptureDone None ''t0'')) capturingSession
       = Some (capturingSession\<lparr>proctoring := (proctoring capturingSession)
                 \<lparr>capturing := capturing (proctoring capturingSession) - 1,
                  cur := (cur (proctoring capturingSession))\<lparr>isTakingSnapshot := False\<rparr>\<rparr>\<rparr>)
   \<and> \<not> isTakingSnapshot inactiveRender \<and> cameraReady inactiveRender
   \<and> hasPermission inactiveRender \<and> \<not> canCapture inactiveRender inactiveArmed
   \<and> intervals inactiveArmed \<noteq> []
   \<and> snd (takeAndUploadSnapshot inactiveRender inactiveArmed)
       = inactiveArmed\<lparr>cur := (cur inactiveArmed)\<lparr>isTakingSnapshot := False\<rparr>\<rparr>
   \<and> sessionRun (map HookEvent failingCycles) uploadingSession = Some allFailedSession
   \<and> exam allFailedSession = exam uploadingSession
   \<and> clock (exam uploadingSession) \<le> 3200
   \<and> sessionStep (ScreenEvent (AnswerEdited 11 ''A'' False 3200)) allFailedSession
       = Some (allFailedSession
                 \<lparr>exam := autoSaveAnswer (screen (advance 3200 (exam uploadingSession))) 11 ''A''
                            False 3200 (advance 3200 (exam uploadingSession))\<rparr>)
   \<and> \<not> isTakingSnapshot (cur (proctoring allFailedSession))
   \<and> snapshotCount (cur (proctoring allFailedSession)) = 0
   \<and> lastSnapshotTime (cur (proctoring allFailedSession)) = None
   \<and> \<not> visible (violationModal (cur (proctoring allFailedSession)))
   \<and> intervals (proctoring allFailedSession) = intervals (proctoring uploadingSession)
   \<and> snapshotIntervalRef (proctoring allFailedSession)
       = snapshotIntervalRef (proctoring uploadingSession)"
proof -
  have u: "0 < uploading (proctoring uploadingSession)"
    "isTakingSnapshot (cur (proctoring uploadingSession))"
    "intervals (proctoring uploadingSession) \<noteq> []"
    by code_simp+
  have c: "0 < capturing (proctoring capturingSession)"
    "isTakingSnapshot (cur (proctoring capturingSession))"
    "intervals (proctoring capturingSession) \<noteq> []"
    by code_simp+
  have i: "\<not> isTakingSnapshot inactiveRender" "cameraReady inactiveRender"
    "hasPermission inactiveRender" "\<not> canCapture inactiveRender inactiveArmed"
    "intervals inactiveArmed \<noteq> []"
    by code_simp+
  have r: "sessionRun (map HookEvent failingCycles) uploadingSession = Some allFailedSession"
    by code_simp
  have k: "clock (exam uploadingSession) \<le> 3200" by code_simp
  have o: "\<not> isTakingSnapshot (cur (proctoring allFailedSession))"
    "snapshotCount (cur (proctoring allFailedSession)) = 0"
    "lastSnapshotTime (cur (proctoring allFailedSession)) = None"
    "\<not> visible (violationModal (cur (proctoring allFailedSession)))"
    "intervals (proctoring allFailedSession) = intervals (proctoring uploadingSession)"
    "snapshotIntervalRef (proctoring allFailedSession)
       = snapshotIntervalRef (proctoring uploadingSession)"
    by code_simp+
  note up = failed_cycle_is_swallowed
      [of "proctoring uploadingSession" NetworkError "''12:00:00''" "''t0''" inactiveRender
          uploadingSession failingCycles allFailedSession 3200 11 "''A''" False]
  note cp = failed_cycle_is_swallowed
      [of "proctoring capturingSession" NetworkError "''12:00:00''" "''t0''" inactiveRender
          capturingSession failingCycles allFailedSession 3200 11 "''A''" False]
  note ia = failed_cycle_is_swallowed
      [of inactiveArmed NetworkError "''12:00:00''" "''t0''" inactiveRender
          uploadingSession failingCycles allFailedSession 3200 11 "''A''" False]
  have U1: "step (UploadDone (Inl NetworkError) ''12:00:00'') (proctoring uploadingSession)
       = Some ((proctoring uploadingSession)
                 \<lparr>uploading := uploading (proctoring uploadingSession) - 1,
                  cur := (cur (proctoring uploadingSession))\<lparr>isTakingSnapshot := False\<rparr>\<rparr>)"
    using up u(1) by (elim conjE) (erule mp)
  have U2: "sessionStep (HookEvent (UploadDone (Inl NetworkError) ''12:00:00'')) uploadingSession
       = Some (uploadingSession\<lparr>proctoring := (proctoring uploadingSession)
                 \<lparr>uploading := uploading (proctoring uploadingSession) - 1,
                  cur := (cur (proctoring uploadingSession))\<lparr>isTakingSnapshot := False\<rparr>\<rparr>\<rparr>)"
    using up u(1) by (elim conjE) (erule mp)
  have C1: "step (CaptureDone None ''t0'') (proctoring capturingSession)
       = Some ((proctoring capturingSession)
                 \<lparr>capturing := capturing (proctoring capturingSession) - 1,
                  cur := (cur (proctoring capturingSession))\<lparr>isTakingSnapshot := False\<rparr>\<rparr>)"
    using cp c(1) by (elim conjE) (erule mp)
  have C2: "sessionStep (HookEvent (CaptureDone None ''t0'')) capturingSession
       = Some (capturingSession\<lparr>proctoring := (proctoring capturingSession)
                 \<lparr>capturing := capturing (proctoring capturingSession) - 1,
                  cur := (cur (proctoring capturingSession))\<lparr>isTakingSnapshot := False\<rparr>\<rparr>\<rparr>)"
    using cp c(1) by (elim conjE) (erule mp)
  have I1: "snd (takeAndUploadSnapshot inactiveRender inactiveArmed)
       = inactiveArmed\<lparr>cur := (cur inactiveArmed)\<lparr>isTakingSnapshot := False\<rparr>\<rparr>"
  proof -
    have imp: "\<not> isTakingSnapshot inactiveRender \<and> cameraReady inactiveRender
       \<and> hasPermission inactiveRender \<and> \<not> canCapture inactiveRender inactiveArmed \<longrightarrow>
       snd (takeAndUploadSnapshot inactiveRender inactiveArmed)
         = inactiveArmed\<lparr>cur := (cur inactiveArmed)\<lparr>isTakingSnapshot := False\<rparr>\<rparr>"
      using ia by (elim conjE) assumption
    have "\<not> isTakingSnapshot inactiveRender \<and> cameraReady inactiveRender
       \<and> hasPermission inactiveRender \<and> \<not> canCapture inactiveRender inactiveArmed"
      using i(1-4) by (intro conjI)
    with imp show ?thesis by (rule mp)
  qed
  have E: "exam allFailedSession = exam uploadingSession
     \<and> (clock (exam uploadingSession) \<le> 3200 \<longrightarrow>
          sessionStep (ScreenEvent (AnswerEdited 11 ''A'' False 3200)) allFailedSession
            = Some (allFailedSession
                 \<lparr>exam := autoSaveAnswer (screen (advance 3200 (exam uploadingSession))) 11 ''A''
                            False 3200 (advance 3200 (exam uploadingSession))\<rparr>))"
    using up r by (elim conjE) (erule mp)
  have E1: "exam allFailedSession = exam uploadingSession" using E by (rule conjunct1)
  have E2: "sessionStep (ScreenEvent (AnswerEdited 11 ''A'' False 3200)) allFailedSession
            = Some (allFailedSession
                 \<lparr>exam := autoSaveAnswer (screen (advance 3200 (exam uploadingSession))) 11 ''A''
                            False 3200 (advance 3200 (exam uploadingSession))\<rparr>)"
    using E k by (elim conjE) (erule mp)
  show ?thesis
    by (intro conjI) (fact u c i r k o U1 U2 C1 C2 I1 E1 E2)+
qed

subsection \<open>Overlapping cycles\<close>

text \<open>
  The guard does stop a call whose own render has the busy flag set.
\<close>

lemma busy_render_skips:
  "isTakingSnapshot env \<Longrightarrow> takeAndUploadSnapshot env w = (Some (Fulfilled None), w)"
  by (simp add: takeAndUploadSnapshot_def)

text \<open>
  But the timers call the function of the render that started them, whose flag is a
  constant: every render \<open>startProctoring\<close> stores has the flag it had then.
\<close>

lemma startProctoring_stores_its_render:
  "isProctoringEnabled env \<Longrightarrow> cameraReady env \<Longrightarrow> hasPermission env \<Longrightarrow>
     timeouts (startProctoring env w) = timeouts w @ [env]
     \<and> (\<exists>i. last (intervals (startProctoring env w)) = (i, env))"
  by (simp add: startProctoring_def Let_def clearInterval_def split: option.splits)

text \<open>
  C1, after arming: the first timeout fires and starts a cycle, which sets the busy
  flag and waits for the camera; the interval fires while that cycle is in flight, and
  its call passes the guard too: two captures are in flight at once. Likewise when the
  interval fires while the first cycle waits for the server: a second capture starts.
\<close>

theorem tick_during_cycle_starts_second_cycle:
  "map_option (isTakingSnapshot \<circ> cur) (run (arming @ [TimeoutFires]) w0) = Some True
   \<and> map_option inFlight (run (arming @ [TimeoutFires]) w0) = Some 1
   \<and> map_option inFlight (run (arming @ [TimeoutFires, IntervalFires]) w0) = Some 2
   \<and> map_option trace (run (arming @ [TimeoutFires, IntervalFires]) w0)
       = Some [PhotoTaken, PhotoTaken]
   \<and> map_option uploading
       (run (arming @ [TimeoutFires, CaptureDone (Some ''abc'') ''t0'', IntervalFires]) w0) = Some 1
   \<and> map_option capturing
       (run (arming @ [TimeoutFires, CaptureDone (Some ''abc'') ''t0'', IntervalFires]) w0) = Some 1"
  by code_simp

section \<open>Properties of the exam screen\<close>

lemmas examSetters = setUserAnswers_def setQuestionStartTime_def setCurrentQuestionIndex_def
  setSelectedSubject_def setTimeRemaining_def setSubmitting_def setShowSubmitModal_def
  setAutoSaving_def setLastSaved_def alert_def

subsection \<open>Debounced saving\<close>

lemma filter_all_same_id:
  "\<forall>x \<in> set xs. fst x = i \<Longrightarrow> filter (\<lambda>(j, d, c). j \<noteq> i) xs = []"
  by (induction xs) auto

lemma advance_timersOk: "timersOk w \<Longrightarrow> timersOk (advance t w)"
  by (auto simp: timersOk_def advance_def Let_def distinct_map_filter)

lemma autoSave_fields:
  "saveTimers (autoSaveAnswer env q a f t w) =
     saveTimers (if refSet (autoSaveTimeoutRef w) then clearTimeout (autoSaveTimeoutRef w) w else w)
       @ [(timerIds w, t + debounceDelay, q, a, f)]"
  "autoSaveTimeoutRef (autoSaveAnswer env q a f t w) = Some (timerIds w)"
  "timerIds (autoSaveAnswer env q a f t w) = Suc (timerIds w)"
  "calls (autoSaveAnswer env q a f t w) = calls w"
  by (simp_all add: autoSaveAnswer_def Let_def examSetters clearTimeout_def split: option.splits)

text \<open>After an edit exactly one timer is pending: the one the edit started.\<close>

lemma edit_arms:
  assumes "timersOk w"
  shows "timersOk (autoSaveAnswer env q a f t w)
         \<and> saveTimers (autoSaveAnswer env q a f t w) = [(timerIds w, t + debounceDelay, q, a, f)]
         \<and> calls (autoSaveAnswer env q a f t w) = calls w
         \<and> timerIds (autoSaveAnswer env q a f t w) = Suc (timerIds w)"
proof -
  have same: "\<forall>x \<in> set (saveTimers w). autoSaveTimeoutRef w = Some (fst x) \<and> fst x \<noteq> 0"
    using assms(1) by (auto simp: timersOk_def)
  have pos: "0 < timerIds w" using assms(1) by (simp add: timersOk_def)
  have cleared:
    "saveTimers (if refSet (autoSaveTimeoutRef w)
                 then clearTimeout (autoSaveTimeoutRef w) w else w) = []"
  proof (cases "saveTimers w")
    case Nil
    then show ?thesis by (simp add: clearTimeout_def split: option.splits)
  next
    case (Cons x xs)
    then have r: "autoSaveTimeoutRef w = Some (fst x)" "fst x \<noteq> 0" using same by auto
    have "\<forall>y \<in> set (saveTimers w). fst y = fst x" using same r by auto
    then show ?thesis
      using r filter_all_same_id[of "saveTimers w" "fst x"]
      by (simp add: refSet_def clearTimeout_def)
  qed
  have t: "saveTimers (autoSaveAnswer env q a f t w) = [(timerIds w, t + debounceDelay, q, a, f)]"
    using autoSave_fields(1)[of env q a f t w] cleared by simp
  have "timersOk (autoSaveAnswer env q a f t w)"
    using t pos by (simp add: timersOk_def autoSave_fields(2,3))
  then show ?thesis using t by (simp add: autoSave_fields(3,4))
qed

lemma advance_keeps_pending:
  assumes "saveTimers w = [(i, t + debounceDelay, q, a, f)]" "t' < t + debounceDelay"
  shows "saveTimers (advance t' w) = saveTimers w \<and> calls (advance t' w) = calls w
         \<and> timerIds (advance t' w) = timerIds w"
  using assms by (simp add: advance_def Let_def)

lemma advance_fires_pending:
  assumes "saveTimers w = [(i, t + debounceDelay, q, a, f)]" "t + debounceDelay \<le> T"
  shows "saveTimers (advance T w) = [] \<and> savesMade (advance T w) = savesMade w @ [(q, a, f)]"
  using assms by (simp add: advance_def Let_def savesMade_def)

lemma burst_keeps_one_pending:
  assumes "timersOk w" "saveTimers w = [(i, t + debounceDelay, q, a, f)]" "rapid t es"
    and "last ((t, a, f) # es) = (tN, aN, fN)"
  shows "\<exists>j. saveTimers (burst q es w) = [(j, tN + debounceDelay, q, aN, fN)]
           \<and> calls (burst q es w) = calls w
           \<and> timerIds (burst q es w) = timerIds w + length es"
  using assms
proof (induction es arbitrary: w i t a f)
  case Nil
  then show ?case by simp
next
  case (Cons e es)
  obtain t' a' f' where e: "e = (t', a', f')" by (cases e) auto
  have gap: "t \<le> t'" "t' < t + debounceDelay" and rest: "rapid t' es"
    using Cons.prems(3) e by auto
  let ?v = "advance t' w"
  let ?w1 = "autoSaveAnswer (screen ?v) q a' f' t' ?v"
  have keep: "saveTimers ?v = saveTimers w" "calls ?v = calls w" "timerIds ?v = timerIds w"
    using advance_keeps_pending[OF Cons.prems(2) gap(2)] by auto
  have ok: "timersOk ?v" using advance_timersOk[OF Cons.prems(1)] .
  have arm: "timersOk ?w1" "saveTimers ?w1 = [(timerIds ?v, t' + debounceDelay, q, a', f')]"
     "calls ?w1 = calls ?v" "timerIds ?w1 = Suc (timerIds ?v)"
    using edit_arms[OF ok, of "screen ?v" q a' f' t'] by auto
  have l: "last ((t', a', f') # es) = (tN, aN, fN)" using Cons.prems(4) e by simp
  from Cons.IH[OF arm(1) arm(2) rest l]
  obtain j where "saveTimers (burst q es ?w1) = [(j, tN + debounceDelay, q, aN, fN)]"
     "calls (burst q es ?w1) = calls ?w1" "timerIds (burst q es ?w1) = timerIds ?w1 + length es"
    by auto
  then show ?case using e arm keep by auto
qed

text \<open>An edit event of the screen is \<open>autoSaveAnswer\<close> of the latest render, as in \<open>burst\<close>.\<close>

lemma edit_event_is_autoSave:
  "clock w \<le> t \<Longrightarrow>
     examStep (AnswerEdited q a f t) w
       = Some (autoSaveAnswer (screen (advance t w)) q a f t (advance t w))"
  by (simp add: examStep_def)

text \<open>
  The timer table is well formed at the start and stays so under every event of the
  screen.
\<close>

lemma timersOk_cong:
  "saveTimers w' = saveTimers w \<Longrightarrow> autoSaveTimeoutRef w' = autoSaveTimeoutRef w \<Longrightarrow>
     timerIds w' = timerIds w \<Longrightarrow> timersOk w \<Longrightarrow> timersOk w'"
  by (simp add: timersOk_def)

lemma update_timers:
  "saveTimers (updateQuestionTime q d w) = saveTimers w"
  "autoSaveTimeoutRef (updateQuestionTime q d w) = autoSaveTimeoutRef w"
  "timerIds (updateQuestionTime q d w) = timerIds w"
  by (simp_all add: updateQuestionTime_def setUserAnswers_def)

lemma handle_timersOk:
  assumes "handle e w = Some w'" "timersOk w"
  shows "timersOk w'"
proof (cases e)
  case (AnswerEdited q a f now)
  then show ?thesis using assms edit_arms[OF assms(2), of "screen w" q a f now] by auto
next
  case (AttemptLoaded a now)
  then show ?thesis
    using assms
    by (auto simp: attemptEffect_def Let_def examSetters split: option.splits
             elim!: timersOk_cong[rotated 3])
next
  case (QuestionsLoaded qs now)
  then show ?thesis
    using assms
    by (auto simp: trackingEffect_def Let_def examSetters update_timers split: option.splits
             elim!: timersOk_cong[rotated 3])
next
  case (Navigated i now)
  then show ?thesis
    using assms
    by (auto simp: navigateToQuestion_def trackingEffect_def Let_def examSetters update_timers
             split: option.splits if_splits elim!: timersOk_cong[rotated 3])
next
  case (TimePassed now)
  then show ?thesis using assms by auto
next
  case (CountdownFires now)
  then show ?thesis
    using assms
    by (auto simp: countdownTick_def handleAutoSubmit_def submitExam_def Let_def examSetters
               update_timers
             split: option.splits if_splits elim!: timersOk_cong[rotated 3])
next
  case (SubmitTapped now)
  then show ?thesis
    using assms
    by (auto simp: submitExam_def Let_def examSetters update_timers
             split: option.splits elim!: timersOk_cong[rotated 3])
next
  case (SubmitDone ok now)
  then show ?thesis
    using assms
    by (auto simp: submitSettled_def examSetters split: if_splits elim!: timersOk_cong[rotated 3])
next
  case (SaveDone ok t now)
  then show ?thesis
    using assms
    by (auto simp: saveSettled_def examSetters split: if_splits elim!: timersOk_cong[rotated 3])
qed

lemma timersOk_reachable:
  "examRun evs w = Some w' \<Longrightarrow> timersOk w \<Longrightarrow> timersOk w'"
proof (induction evs arbitrary: w)
  case Nil
  then show ?case by simp
next
  case (Cons e es)
  then obtain w1 where s: "examStep e w = Some w1" and r: "examRun es w1 = Some w'"
    by (auto split: option.splits)
  have "handle e (advance (eventTime e) w) = Some w1"
    using s by (auto simp: examStep_def split: if_splits)
  then have "timersOk w1"
    using handle_timersOk advance_timersOk[OF Cons.prems(2)] by blast
  then show ?case using Cons.IH[OF r] by simp
qed

lemma timersOk_initial: "timersOk (initialExamWorld aid now)"
  by (simp add: timersOk_def initialExamWorld_def)

text \<open>
  C6. A burst of N edits to one question, each less than the debounce delay after the
  one before, followed by quiet until the delay after the last edit has passed: the
  saves made are those made when the first edit arrived, and one more, carrying the
  answer and flag of the last edit. N timers were started and none is pending, so the
  first N - 1 were cleared without firing.
\<close>

theorem burst_of_edits_saves_once_with_latest:
  assumes "timersOk w" and "rapid t es" and "last ((t, a, f) # es) = (tN, aN, fN)"
    and "tN + debounceDelay \<le> T"
  shows "savesMade (advance T (burst q ((t, a, f) # es) w)) = savesMade (advance t w) @ [(q, aN, fN)]
         \<and> saveTimers (advance T (burst q ((t, a, f) # es) w)) = []
         \<and> timerIds (burst q ((t, a, f) # es) w) = timerIds w + length ((t, a, f) # es)"
proof -
  let ?v = "advance t w"
  let ?w1 = "autoSaveAnswer (screen ?v) q a f t ?v"
  have ok: "timersOk ?v" using advance_timersOk[OF assms(1)] .
  have arm: "timersOk ?w1" "saveTimers ?w1 = [(timerIds ?v, t + debounceDelay, q, a, f)]"
     "calls ?w1 = calls ?v" "timerIds ?w1 = Suc (timerIds ?v)"
    using edit_arms[OF ok, of "screen ?v" q a f t] by auto
  have ids: "timerIds ?v = timerIds w" by (simp add: advance_def Let_def)
  from burst_keeps_one_pending[OF arm(1) arm(2) assms(2) assms(3)]
  obtain j where b: "saveTimers (burst q es ?w1) = [(j, tN + debounceDelay, q, aN, fN)]"
     "calls (burst q es ?w1) = calls ?w1" "timerIds (burst q es ?w1) = timerIds ?w1 + length es"
    by auto
  have "savesMade (burst q es ?w1) = savesMade ?v"
    using b(2) arm(3) by (simp add: savesMade_def)
  then show ?thesis
    using advance_fires_pending[OF b(1) assms(4)] b(3) arm(4) ids by simp
qed

theorem burst_of_edits_saves_once_with_latest_witness:
  "timersOk e0 \<and> rapid 0 (tl exampleBurst)
   \<and> last exampleBurst = (1400, ''ABC'', True) \<and> 1400 + debounceDelay \<le> 2400
   \<and> savesMade (advance 2400 (burst 11 exampleBurst e0)) = [(11, ''ABC'', True)]
   \<and> saveTimers (advance 2400 (burst 11 exampleBurst e0)) = []
   \<and> timerIds (burst 11 exampleBurst e0) = 4"
proof -
  have h1: "timersOk e0"
    by (simp add: timersOk_def e0_def initialExamWorld_def)
  have h2: "rapid 0 [(500, ''AB'', False), (1400, ''ABC'', True)]"
    by (simp add: debounceDelay_def)
  have h3: "last ((0, ''A'', False) # [(500, ''AB'', False), (1400, ''ABC'', True)])
              = (1400, ''ABC'', True)"
    by simp
  have h4: "1400 + debounceDelay \<le> 2400" by (simp add: debounceDelay_def)
  have s: "savesMade (advance 0 e0) = []"
    by (simp add: savesMade_def advance_def e0_def initialExamWorld_def)
  have i: "timerIds e0 = 1" by (simp add: e0_def initialExamWorld_def)
  show ?thesis
    using burst_of_edits_saves_once_with_latest[OF h1 h2 h3 h4, of 11] h1 h2 h4 s i
    by (simp add: exampleBurst_def)
qed

subsection \<open>Time spent on a question\<close>

lemma grows_refl: "grows w w"
  by (simp add: grows_def)

lemma grows_trans: "grows w1 w2 \<Longrightarrow> grows w2 w3 \<Longrightarrow> grows w1 w3"
  unfolding grows_def by (meson order_trans)

lemma grows_same: "userAnswers (screen w') = userAnswers (screen w) \<Longrightarrow> grows w w'"
  by (auto simp: grows_def timeSpentOf_def)

lemma grows_cong:
  "userAnswers (screen w2) = userAnswers (screen w1) \<Longrightarrow> grows w w1 \<Longrightarrow> grows w w2"
  by (simp add: grows_def timeSpentOf_def)

lemma elapsed_nonneg: "start \<le> now \<Longrightarrow> 0 \<le> elapsedSeconds now start"
  by (simp add: elapsedSeconds_def)

lemma timeSpentOf_update:
  "timeSpentOf (updateQuestionTime q' d w) q =
     (if q = q' then map_option (\<lambda>s. s + d) (timeSpentOf w q) else timeSpentOf w q)"
  by (cases "map_of (userAnswers (screen w)) q'")
     (simp_all add: timeSpentOf_def updateQuestionTime_def setUserAnswers_def update_conv')

lemma grows_update: "0 \<le> d \<Longrightarrow> grows w (updateQuestionTime q d w)"
  by (auto simp: grows_def timeSpentOf_update)

lemma update_frame:
  "clock (updateQuestionTime q d w) = clock w"
  "tracking (updateQuestionTime q d w) = tracking w"
  "countdown (updateQuestionTime q d w) = countdown w"
  "questionStartTime (screen (updateQuestionTime q d w)) = questionStartTime (screen w)"
  "questions (screen (updateQuestionTime q d w)) = questions (screen w)"
  "currentQuestionIndex (screen (updateQuestionTime q d w)) = currentQuestionIndex (screen w)"
  by (simp_all add: updateQuestionTime_def setUserAnswers_def)

lemma timeSpentOf_navigate:
  "timeSpentOf (navigateToQuestion env i now w) q =
     (case questionAt (questions env) (currentQuestionIndex env) of
        None \<Rightarrow> timeSpentOf w q
      | Some currentQuestion \<Rightarrow>
          (if q = qid currentQuestion
           then map_option (\<lambda>s. s + elapsedSeconds now (questionStartTime env)) (timeSpentOf w q)
           else timeSpentOf w q))"
proof -
  have "userAnswers (screen (navigateToQuestion env i now w)) =
        userAnswers (screen (case questionAt (questions env) (currentQuestionIndex env) of
                  Some currentQuestion \<Rightarrow>
                    updateQuestionTime (qid currentQuestion)
                      (elapsedSeconds now (questionStartTime env)) w
                | None \<Rightarrow> w))"
    by (simp add: navigateToQuestion_def Let_def examSetters split: option.splits)
  then have "timeSpentOf (navigateToQuestion env i now w) q =
        timeSpentOf (case questionAt (questions env) (currentQuestionIndex env) of
                  Some currentQuestion \<Rightarrow>
                    updateQuestionTime (qid currentQuestion)
                      (elapsedSeconds now (questionStartTime env)) w
                | None \<Rightarrow> w) q"
    by (simp add: timeSpentOf_def)
  then show ?thesis by (simp add: timeSpentOf_update split: option.splits)
qed

lemma navigate_frame:
  "clock (navigateToQuestion env i now w) = clock w"
  "tracking (navigateToQuestion env i now w) = tracking w"
  "countdown (navigateToQuestion env i now w) = countdown w"
  "questionStartTime (screen (navigateToQuestion env i now w)) = now"
  by (simp_all add: navigateToQuestion_def Let_def examSetters update_frame
        updateQuestionTime_def split: option.splits)

lemma grows_navigate:
  "questionStartTime env \<le> now \<Longrightarrow> grows w (navigateToQuestion env i now w)"
  using elapsed_nonneg[of "questionStartTime env" now]
  by (auto simp: grows_def timeSpentOf_navigate split: option.splits)

lemma tracking_ok:
  assumes "timeOk w" "clock w = now"
  shows "timeOk (trackingEffect now w) \<and> grows w (trackingEffect now w)"
proof -
  let ?w1 = "case tracking w of
               Some (q, start) \<Rightarrow> updateQuestionTime q (elapsedSeconds now start) w
             | None \<Rightarrow> w"
  have g: "grows w ?w1"
    using assms elapsed_nonneg
    by (auto simp: timeOk_def grows_refl intro!: grows_update split: option.splits)
  have ua: "userAnswers (screen (trackingEffect now w)) = userAnswers (screen ?w1)"
    by (simp add: trackingEffect_def Let_def examSetters split: option.splits)
  have "timeOk (trackingEffect now w)"
    using assms
    by (auto simp: timeOk_def trackingEffect_def Let_def examSetters update_frame
          updateQuestionTime_def split: option.splits)
  then show ?thesis using grows_cong[OF ua g] by simp
qed

lemma autoSave_ok:
  assumes "timeOk w" "clock w = now"
  shows "timeOk (autoSaveAnswer (screen w) q a f now w)
         \<and> grows w (autoSaveAnswer (screen w) q a f now w)"
proof -
  have e: "0 \<le> elapsedSeconds now (questionStartTime (screen w))"
    using assms elapsed_nonneg by (simp add: timeOk_def)
  have "timeOk (autoSaveAnswer (screen w) q a f now w)"
    using assms
    by (auto simp: timeOk_def autoSaveAnswer_def Let_def examSetters clearTimeout_def
          split: option.splits)
  moreover have "grows w (autoSaveAnswer (screen w) q a f now w)"
    using e
    by (auto simp: grows_def timeSpentOf_def autoSaveAnswer_def Let_def examSetters
          clearTimeout_def update_conv' split: option.splits)
  ultimately show ?thesis by simp
qed

lemma submit_ok:
  assumes "timeOk w" "clock w = now" "questionStartTime env \<le> now"
  shows "timeOk (submitExam env now w) \<and> grows w (submitExam env now w)"
proof -
  let ?w2 = "case questionAt (questions env) (currentQuestionIndex env) of
               Some currentQuestion \<Rightarrow>
                 updateQuestionTime (qid currentQuestion)
                   (elapsedSeconds now (questionStartTime env)) w
             | None \<Rightarrow> w"
  have g: "grows w ?w2"
    using elapsed_nonneg[OF assms(3)]
    by (auto simp: grows_refl intro!: grows_update split: option.splits)
  have ua: "userAnswers (screen (submitExam env now w)) = userAnswers (screen ?w2)"
    by (simp add: submitExam_def Let_def examSetters updateQuestionTime_def split: option.splits)
  have "timeOk (submitExam env now w)"
    using assms
    by (auto simp: timeOk_def submitExam_def Let_def examSetters updateQuestionTime_def
          split: option.splits)
  then show ?thesis using grows_cong[OF ua g] by simp
qed

lemma advance_ok:
  assumes "timeOk w" "clock w \<le> now"
  shows "timeOk (advance now w) \<and> grows w (advance now w) \<and> clock (advance now w) = now"
  using assms
  by (auto simp: timeOk_def advance_def Let_def intro!: grows_same split: option.splits)

lemma handle_ok:
  assumes "handle e w = Some w'" "timeOk w" "clock w = eventTime e"
  shows "timeOk w' \<and> grows w w'"
proof (cases e)
  case (AttemptLoaded a now)
  then show ?thesis
    using assms
    by (auto simp: attemptEffect_def Let_def timeOk_def examSetters intro!: grows_same
          split: option.splits)
next
  case (QuestionsLoaded qs now)
  let ?v = "w\<lparr>screen := (screen w)\<lparr>questions := qs\<rparr>\<rparr>"
  have v: "timeOk ?v" "clock ?v = now" "grows w ?v"
    using assms QuestionsLoaded
    by (auto simp: timeOk_def intro!: grows_same split: option.splits)
  show ?thesis
    using tracking_ok[OF v(1) v(2)] v(3) assms(1) QuestionsLoaded
    by (auto intro: grows_trans)
next
  case (AnswerEdited q a f now)
  then show ?thesis using assms autoSave_ok[of w now q a f] by auto
next
  case (Navigated i now)
  let ?v = "navigateToQuestion (screen w) i now w"
  have q: "questionStartTime (screen w) \<le> now" using assms Navigated by (simp add: timeOk_def)
  have v: "timeOk ?v" "clock ?v = now" "grows w ?v"
    using assms Navigated grows_navigate[OF q, of w i]
    by (auto simp: timeOk_def navigate_frame split: option.splits)
  show ?thesis
    using tracking_ok[OF v(1) v(2)] v assms(1) Navigated
    by (auto simp: Let_def intro: grows_trans split: if_splits)
next
  case (TimePassed now)
  then show ?thesis using assms by (auto simp: grows_refl)
next
  case (CountdownFires now)
  then obtain env where c: "countdown w = Some env" using assms by (auto split: option.splits)
  have q: "questionStartTime env \<le> now" using assms c CountdownFires by (simp add: timeOk_def)
  let ?v = "alert ''Time's Up!'' (w\<lparr>countdown := None\<rparr>)"
  have v: "timeOk ?v" "clock ?v = now" "grows w ?v"
    using assms CountdownFires
    by (auto simp: timeOk_def alert_def intro!: grows_same split: option.splits)
  have s: "timeOk (submitExam env now ?v)" "grows w (submitExam env now ?v)"
    using submit_ok[OF v(1) v(2) q] v(3) by (auto intro: grows_trans)
  have "timeOk (setTimeRemaining (\<lambda>prev. 0) (submitExam env now ?v))"
       "grows w (setTimeRemaining (\<lambda>prev. 0) (submitExam env now ?v))"
    using s
    by (auto simp: timeOk_def setTimeRemaining_def intro: grows_cong[OF _ s(2)]
          split: option.splits)
  moreover have "timeOk (setTimeRemaining (\<lambda>prev. prev - 1) w)"
       "grows w (setTimeRemaining (\<lambda>prev. prev - 1) w)"
    using assms
    by (auto simp: timeOk_def setTimeRemaining_def intro!: grows_same split: option.splits)
  ultimately show ?thesis
    using assms(1) c CountdownFires by (auto simp: countdownTick_def handleAutoSubmit_def)
next
  case (SubmitTapped now)
  then show ?thesis
    using assms submit_ok[of w now "screen w"] by (auto simp: timeOk_def split: option.splits)
next
  case (SubmitDone ok now)
  then show ?thesis
    using assms
    by (auto simp: submitSettled_def timeOk_def examSetters intro!: grows_same
          split: if_splits option.splits)
next
  case (SaveDone ok t now)
  then show ?thesis
    using assms
    by (auto simp: saveSettled_def timeOk_def examSetters intro!: grows_same
          split: if_splits option.splits)
qed

lemma examStep_ok:
  assumes "examStep e w = Some w'" "timeOk w"
  shows "timeOk w' \<and> grows w w'"
proof -
  have t: "clock w \<le> eventTime e" and h: "handle e (advance (eventTime e) w) = Some w'"
    using assms(1) by (auto simp: examStep_def split: if_splits)
  have a: "timeOk (advance (eventTime e) w)" "grows w (advance (eventTime e) w)"
     "clock (advance (eventTime e) w) = eventTime e"
    using advance_ok[OF assms(2) t] by auto
  show ?thesis using handle_ok[OF h a(1) a(3)] a(2) by (auto intro: grows_trans)
qed

lemma examRun_ok:
  "examRun evs w = Some w' \<Longrightarrow> timeOk w \<Longrightarrow> timeOk w' \<and> grows w w'"
proof (induction evs arbitrary: w)
  case Nil
  then show ?case by (simp add: grows_refl)
next
  case (Cons e es)
  then obtain w1 where s: "examStep e w = Some w1" and r: "examRun es w1 = Some w'"
    by (auto split: option.splits)
  have 1: "timeOk w1" "grows w w1" using examStep_ok[OF s Cons.prems(2)] by auto
  show ?case using Cons.IH[OF r 1(1)] 1(2) by (auto intro: grows_trans)
qed

lemma timeOk_initial: "timeOk (initialExamWorld aid now)"
  by (simp add: timeOk_def initialExamWorld_def initialExamRender_def)

text \<open>
  The cleanup of the tracking effect and \<open>navigateToQuestion\<close> both add the time of
  the visit that ends: five seconds on an answered question are recorded as ten.
\<close>

lemma visit_is_credited_by_handler_and_by_cleanup:
  "recordedAfter
     [QuestionsLoaded exampleQuestions 0, AnswerEdited 11 ''A'' False 0, Navigated 1 5000]
     e0 11 = Some (Some 10)"
  by code_simp

text \<open>
  C7 as stated fails: the student stays five seconds on question 11 without answering
  it and moves on; no time is recorded for question 11, which has no entry.
\<close>

theorem dwell_without_entry_is_not_recorded_counterexample:
  "recordedAfter [QuestionsLoaded exampleQuestions 0, Navigated 1 5000] e0 11 = Some None"
  by code_simp

text \<open>
  C7, amended. \<open>navigateToQuestion\<close> adds the whole seconds since the question start
  time, rounded down, to the entry of the question being left when that question has an
  entry, records nothing when it has none, and leaves the seconds of every other
  question as they were. Over any sequence of events of the screen with a clock that
  does not run backwards, an entry stays an entry and its seconds never decrease.
\<close>

theorem navigation_credits_entry_and_timeSpent_never_decreases:
  "timeSpentOf (navigateToQuestion env i now w) q =
     (case questionAt (questions env) (currentQuestionIndex env) of
        None \<Rightarrow> timeSpentOf w q
      | Some currentQuestion \<Rightarrow>
          (if q = qid currentQuestion
           then map_option (\<lambda>s. s + elapsedSeconds now (questionStartTime env)) (timeSpentOf w q)
           else timeSpentOf w q))
   \<and> (timeOk w \<and> examRun evs w \<noteq> None \<and> timeSpentOf w q = Some s \<longrightarrow>
        (\<exists>s'. recordedAfter evs w q = Some (Some s') \<and> s \<le> s'))"
proof -
  have "\<exists>s'. recordedAfter evs w q = Some (Some s') \<and> s \<le> s'"
    if h: "timeOk w" "examRun evs w \<noteq> None" "timeSpentOf w q = Some s"
  proof -
    obtain w' where r: "examRun evs w = Some w'" using h(2) by auto
    have "grows w w'" using examRun_ok[OF r h(1)] by simp
    then show ?thesis using h(3) r by (auto simp: grows_def recordedAfter_def)
  qed
  then show ?thesis using timeSpentOf_navigate[of env i now w q] by blast
qed

text \<open>
  On the screen where question 11 was answered two seconds after it came up: the call of
  \<open>navigateToQuestion\<close> brings its entry from 2 to 4 seconds, and the whole
  navigation there and back, cleanup of the effect included, to 9.
\<close>

theorem navigation_credits_entry_and_timeSpent_never_decreases_witness:
  "examRun answering e0 = Some answeredScreen
   \<and> timeOk answeredScreen \<and> examRun thereAndBack answeredScreen \<noteq> None
   \<and> timeSpentOf answeredScreen 11 = Some 2
   \<and> questionAt (questions (screen answeredScreen)) (currentQuestionIndex (screen answeredScreen))
       = Some \<lparr>qid = 11, subject = ''Maths''\<rparr>
   \<and> elapsedSeconds 5000 (questionStartTime (screen answeredScreen)) = 2
   \<and> timeSpentOf (navigateToQuestion (screen answeredScreen) 1 5000 answeredScreen) 11 = Some 4
   \<and> timeSpentOf (navigateToQuestion (screen answeredScreen) 1 5000 answeredScreen) 12 = None
   \<and> recordedAfter thereAndBack answeredScreen 11 = Some (Some 9)"
proof -
  have r: "examRun answering e0 = Some answeredScreen" by code_simp
  have h1: "timeOk answeredScreen" by code_simp
  have h2: "examRun thereAndBack answeredScreen \<noteq> None" by code_simp
  have h3: "timeSpentOf answeredScreen 11 = Some 2" by code_simp
  have q: "questionAt (questions (screen answeredScreen))
             (currentQuestionIndex (screen answeredScreen))
           = Some \<lparr>qid = 11, subject = ''Maths''\<rparr>"
    by code_simp
  have e: "elapsedSeconds 5000 (questionStartTime (screen answeredScreen)) = 2" by code_simp
  have n2: "timeSpentOf answeredScreen 12 = None" by code_simp
  have v: "recordedAfter thereAndBack answeredScreen 11 = Some (Some 9)" by code_simp
  note t11 = navigation_credits_entry_and_timeSpent_never_decreases
         [of "screen answeredScreen" 1 5000 answeredScreen 11 thereAndBack 2]
  note t12 = navigation_credits_entry_and_timeSpent_never_decreases
         [of "screen answeredScreen" 1 5000 answeredScreen 12 thereAndBack 2]
  have a11: "timeSpentOf (navigateToQuestion (screen answeredScreen) 1 5000 answeredScreen) 11
             = Some 4"
    using t11 q e h3 by simp
  have a12: "timeSpentOf (navigateToQuestion (screen answeredScreen) 1 5000 answeredScreen) 12
             = None"
    using t12 q n2 by simp
  from t11 h1 h2 h3
  have "\<exists>s'. recordedAfter thereAndBack answeredScreen 11 = Some (Some s') \<and> 2 \<le> s'"
    by blast
  with r h1 h2 h3 q e a11 a12 v show ?thesis by simp
qed

subsection \<open>Automatic submission\<close>

text \<open>
  C8, at an exam whose time runs out after the student has answered question 11. The
  countdown calls the \<open>submitExam\<close> of the render that started the interval, in
  which no question was loaded and no answer given: the one submission it makes has an
  empty payload, while the answer to question 11 is in memory. When the student has
  tapped Submit just before, the countdown submits all the same, with the flag
  \<open>submitting\<close> set: two submissions are made.
\<close>

theorem auto_submit_payload_is_empty_and_unguarded:
  "map_option submitsMade (examRun answerThenExpire e0) = Some [\<lparr>attempt_id = 7, answers = []\<rparr>]
   \<and> map_option (userAnswers \<circ> screen) (examRun answerThenExpire e0)
       = Some [(11, \<lparr>questionId = 11, answer = ''A'', isFlagged = False, timeSpent = 3,
                     startTime = 200\<rparr>)]
   \<and> map_option (submitting \<circ> screen) (examRun (butlast answerTapThenExpire) e0) = Some True
   \<and> map_option submitsMade (examRun answerTapThenExpire e0)
       = Some [\<lparr>attempt_id = 7,
                 answers = [(11, \<lparr>question_id = 11, answer_value = ''A'', is_flagged = False,
                                   time_spent = 3\<rparr>)]\<rparr>,
               \<lparr>attempt_id = 7, answers = []\<rparr>]"
  by code_simp

end
